theory Spec2Isabelle
  imports Main
begin

section \<open>Python string primitives used by the scraper\<close>

text \<open>
  Strings are modelled as \<open>char list\<close>. The helpers below follow the behaviour of the
  Python \<open>str\<close> methods on ASCII text: \<open>str.lower\<close>, the \<open>in\<close> operator on strings,
  \<open>str.strip\<close>, \<open>str.replace\<close>, \<open>str.split(sep)[0]\<close> and \<open>str.startswith\<close>.
\<close>

definition is_space :: "char \<Rightarrow> bool" where
  "is_space c = (c = CHR '' '' \<or> (9 \<le> (of_char c :: nat) \<and> (of_char c :: nat) \<le> 13)
                 \<or> (28 \<le> (of_char c :: nat) \<and> (of_char c :: nat) \<le> 31))"

definition py_strip :: "string \<Rightarrow> string" where
  "py_strip s = rev (dropWhile is_space (rev (dropWhile is_space s)))"

definition lower_char :: "char \<Rightarrow> char" where
  "lower_char c = (if 65 \<le> (of_char c :: nat) \<and> (of_char c :: nat) \<le> 90
                   then char_of (of_char c + (32::nat)) else c)"

definition py_lower :: "string \<Rightarrow> string" where
  "py_lower s = map lower_char s"

fun startswith :: "string \<Rightarrow> string \<Rightarrow> bool" where
  "startswith s [] = True"
| "startswith [] (p # ps) = False"
| "startswith (c # cs) (p # ps) = (c = p \<and> startswith cs ps)"

text \<open>\<open>contains needle s\<close> is Python's \<open>needle in s\<close>.\<close>

fun contains :: "string \<Rightarrow> string \<Rightarrow> bool" where
  "contains needle [] = (needle = [])"
| "contains needle (c # cs) = (startswith (c # cs) needle \<or> contains needle cs)"

text \<open>
  \<open>py_replace old new s\<close> is \<open>s.replace(old, new)\<close> for a non-empty \<open>old\<close>: a single
  left-to-right pass over non-overlapping occurrences; replaced text is not rescanned.
\<close>

function py_replace :: "string \<Rightarrow> string \<Rightarrow> string \<Rightarrow> string" where
  "py_replace old new [] = []"
| "py_replace old new (c # cs) =
     (if old \<noteq> [] \<and> startswith (c # cs) old
      then new @ py_replace old new (drop (length old) (c # cs))
      else c # py_replace old new cs)"
  by pat_completeness auto
termination
  by (relation "measure (\<lambda>(old, new, s). length s)") auto

text \<open>\<open>split_first sep s\<close> is \<open>s.split(sep)[0]\<close> for a one-character separator.\<close>

definition split_first :: "char \<Rightarrow> string \<Rightarrow> string" where
  "split_first sep s = takeWhile (\<lambda>c. c \<noteq> sep) s"

definition clean_text :: "string \<Rightarrow> string" where
  "clean_text text =
     (if text = [] then ''NA''
      else py_replace [CHR 0x0D] [] (py_replace [CHR 0x0A] '' '' (py_strip text)))"

section \<open>Library calls taken as parameters\<close>

text \<open>
  The regular-expression searches of \<open>parse_timeline\<close> and the \<open>datetime\<close> conversions are
  calls into the Python standard library. They are parameters of the model:
  \<^item> \<open>strptime s fmt\<close> is \<open>datetime.strptime(s, fmt)\<close>: the parsed (year, month, day), or
    \<open>None\<close> where Python raises \<open>ValueError\<close>;
  \<^item> \<open>strftime_mdY\<close> is \<open>.strftime("%m/%d/%Y")\<close>;
  \<^item> \<open>search_date\<close> is group 1 of the date pattern searched in an item text;
  \<^item> \<open>search_team\<close> is group 1 of the \<open>(?:to|with|at|commits to)\<close> team pattern;
  \<^item> \<open>search_draft_team\<close> is group 1 of the draft team pattern (searched ignoring case);
  \<^item> \<open>sub_draft\<close> is \<open>re.sub(r'^Draft\s*', '', t, flags=re.IGNORECASE)\<close>;
  \<^item> \<open>search_player_id\<close> is group 1 of \<open>/player/[^/]+-(\d+)/\<close> searched in a URL.
\<close>

type_synonym ymd = "int \<times> int \<times> int"

record pylib =
  strptime :: "string \<Rightarrow> string \<Rightarrow> ymd option"
  strftime_mdY :: "ymd \<Rightarrow> string"
  search_date :: "string \<Rightarrow> string option"
  search_team :: "string \<Rightarrow> string option"
  search_draft_team :: "string \<Rightarrow> string option"
  sub_draft :: "string \<Rightarrow> string"
  search_player_id :: "string \<Rightarrow> string option"

section \<open>Date helpers of scraper.py\<close>

definition fmt_mdY :: string where "fmt_mdY = ''%m/%d/%Y''"
definition fmt_bdY :: string where "fmt_bdY = ''%b %d, %Y''"
definition fmt_BdY :: string where "fmt_BdY = ''%B %d, %Y''"

fun try_formats :: "pylib \<Rightarrow> string \<Rightarrow> string list \<Rightarrow> string" where
  "try_formats L date_str [] = date_str"
| "try_formats L date_str (fmt # fmts) =
     (case strptime L date_str fmt of
        Some d \<Rightarrow> strftime_mdY L d
      | None \<Rightarrow> try_formats L date_str fmts)"

definition normalize_date :: "pylib \<Rightarrow> string \<Rightarrow> string" where
  "normalize_date L date_str =
     (if date_str = [] then ''NA''
      else try_formats L (clean_text date_str) [fmt_mdY, fmt_bdY, fmt_BdY])"

text \<open>
  \<open>datetime(year, 9, 1)\<close> raises \<open>ValueError\<close> unless the year lies between
  \<open>MINYEAR = 1\<close> and \<open>MAXYEAR = 9999\<close>.
\<close>

definition cutoff_date :: "int \<Rightarrow> ymd option" where
  "cutoff_date recruiting_year =
     (if 1 \<le> recruiting_year \<and> recruiting_year \<le> 9999
      then Some (recruiting_year, 9, 1) else None)"

text \<open>Comparison of two datetimes at midnight: lexicographic on (year, month, day).\<close>

fun date_less :: "ymd \<Rightarrow> ymd \<Rightarrow> bool" where
  "date_less (y1, m1, d1) (y2, m2, d2) =
     (y1 < y2 \<or> (y1 = y2 \<and> (m1 < m2 \<or> (m1 = m2 \<and> d1 < d2))))"

text \<open>
  The bare \<open>except\<close> of \<open>is_date_valid_for_class\<close> turns every exception of the
  \<open>try\<close> block (an unparsable string, a year outside the datetime range) into \<open>True\<close>.
\<close>

definition is_date_valid_for_class :: "pylib \<Rightarrow> string \<Rightarrow> int \<Rightarrow> bool" where
  "is_date_valid_for_class L date_str recruiting_year =
     (if date_str = ''NA'' then False
      else (case strptime L date_str fmt_mdY of
              None \<Rightarrow> True
            | Some dt \<Rightarrow>
                (case cutoff_date recruiting_year of
                   None \<Rightarrow> True
                 | Some cutoff \<Rightarrow> date_less dt cutoff)))"

section \<open>The record under construction\<close>

text \<open>
  \<open>parse_profile\<close> builds a Python dict from CSV header to string and stashes the
  priority of the recorded signing date under the extra key \<open>_date_priority\<close>. The
  string-valued entries are the map \<open>entries\<close>; the extra integer entry is
  \<open>date_priority\<close> (\<open>None\<close> when the key is absent).
\<close>

record pdata =
  entries :: "string \<rightharpoonup> string"
  date_priority :: "int option"

definition setitem :: "pdata \<Rightarrow> string \<Rightarrow> string \<Rightarrow> pdata" where
  "setitem d k v = d\<lparr>entries := (entries d)(k \<mapsto> v)\<rparr>"

text \<open>\<open>data.get('_date_priority', -1)\<close>\<close>

definition get_priority :: "pdata \<Rightarrow> int" where
  "get_priority d = (case date_priority d of None \<Rightarrow> -1 | Some p \<Rightarrow> p)"

section \<open>Timeline reconciliation (parse_timeline)\<close>

definition item_priority :: "string \<Rightarrow> int" where
  "item_priority item_text =
     (let low = py_lower item_text in
      if contains ''commitment'' low \<or> contains ''committed'' low \<or> contains ''commits to'' low
      then 100
      else if contains ''signed'' low \<or> contains ''signing'' low then 1
      else 0)"

definition found_date :: "pylib \<Rightarrow> string \<Rightarrow> string" where
  "found_date L item_text =
     (case search_date L item_text of Some g \<Rightarrow> normalize_date L g | None \<Rightarrow> ''NA'')"

text \<open>
  The commitment block, identical in both tiers. The second component tells whether the
  block reached the statement \<open>if item_priority == 100: return\<close> of the deep-history
  copy with a true condition; the abbreviated copy has no such statement.
\<close>

definition merge_event :: "pylib \<Rightarrow> int \<Rightarrow> string \<Rightarrow> pdata \<Rightarrow> pdata \<times> bool" where
  "merge_event L year item_text d =
     (let prio = item_priority item_text in
      if prio > 0 then
        (let fd = found_date L item_text in
         if fd \<noteq> ''NA'' \<and> is_date_valid_for_class L fd year then
           (let current_priority = get_priority d in
            if prio > current_priority then
              (let d1 = (setitem d ''Signed Date'' fd)\<lparr>date_priority := Some prio\<rparr>;
                   d2 = (case search_team L item_text of
                           Some g \<Rightarrow> setitem d1 ''Signed Team'' (clean_text g)
                         | None \<Rightarrow> d1)
               in (d2, prio = 100))
            else (d, False))
         else (d, False))
      else (d, False))"

text \<open>
  The draft block of the abbreviated tier. Reading \<open>data['Draft Date']\<close> of a dict
  without that key raises \<open>KeyError\<close>: the first component is \<open>True\<close> when the block
  raised, and the record is returned as mutated so far.
\<close>

definition draft_date_step :: "pylib \<Rightarrow> string \<Rightarrow> pdata \<Rightarrow> bool \<times> pdata" where
  "draft_date_step L item_text d =
     (case search_date L item_text of
        None \<Rightarrow> (False, d)
      | Some g \<Rightarrow>
          (case entries d ''Draft Date'' of
             None \<Rightarrow> (True, d)
           | Some v \<Rightarrow> if v = ''NA'' then (False, setitem d ''Draft Date'' (normalize_date L g))
                       else (False, d)))"

definition draft_team_step :: "pylib \<Rightarrow> string \<Rightarrow> pdata \<Rightarrow> bool \<times> pdata" where
  "draft_team_step L item_text d =
     (case search_draft_team L item_text of
        None \<Rightarrow> (False, d)
      | Some g \<Rightarrow>
          (case entries d ''Draft Team'' of
             None \<Rightarrow> (True, d)
           | Some v \<Rightarrow>
               if v = ''NA'' then
                 (let team_name = py_strip (sub_draft L (clean_text g)) in
                  if team_name \<noteq> [] \<and> py_lower team_name \<noteq> ''draft''
                  then (False, setitem d ''Draft Team'' team_name)
                  else (False, d))
               else (False, d)))"

definition draft_logic :: "pylib \<Rightarrow> string \<Rightarrow> pdata \<Rightarrow> bool \<times> pdata" where
  "draft_logic L item_text d =
     (if contains ''draft'' (py_lower item_text) then
        (case draft_date_step L item_text d of
           (True, d1) \<Rightarrow> (True, d1)
         | (False, d1) \<Rightarrow> draft_team_step L item_text d1)
      else (False, d))"

datatype status = Completed | EarlyExit | Raised

text \<open>The loop over the abbreviated timeline items; an item is the text of its element.\<close>

fun scan_abbreviated :: "pylib \<Rightarrow> int \<Rightarrow> string list \<Rightarrow> pdata \<Rightarrow> status \<times> pdata" where
  "scan_abbreviated L year [] d = (Completed, d)"
| "scan_abbreviated L year (item # items) d =
     (let item_text = clean_text item in
      case draft_logic L item_text d of
        (True, d1) \<Rightarrow> (Raised, d1)
      | (False, d1) \<Rightarrow> scan_abbreviated L year items (fst (merge_event L year item_text d1)))"

text \<open>The loop over the items of one page of the full timeline.\<close>

fun scan_full_items :: "pylib \<Rightarrow> int \<Rightarrow> string list \<Rightarrow> pdata \<Rightarrow> status \<times> pdata" where
  "scan_full_items L year [] d = (Completed, d)"
| "scan_full_items L year (item # items) d =
     (case merge_event L year (clean_text item) d of
        (d1, True) \<Rightarrow> (EarlyExit, d1)
      | (d1, False) \<Rightarrow> scan_full_items L year items d1)"

text \<open>
  What the browser shows during the deep dive. Page \<open>n\<close> of the full timeline is either a
  failure of \<open>page.content()\<close> or its list items together with the outcome of the
  next-button step: clicked, no visible button, or an exception.
\<close>

datatype nav = NextClicked | NoNextButton | NavRaised

datatype page_obs = ContentError | Content "string list" nav

text \<open>
  \<open>NoFullTimeline\<close> covers every way of not reaching the first page: no
  \<open>TimelineEvents\<close> link, an empty \<open>href\<close>, or an exception before or in \<open>page.goto\<close>.
\<close>

datatype deep_env = NoFullTimeline | FullTimeline "nat \<Rightarrow> page_obs"

definition max_pages :: nat where "max_pages = 10"

text \<open>
  The \<open>while page_count < max_pages\<close> loop. The result carries the final \<open>page_count\<close>,
  the number of next-button clicks performed.
\<close>

function deep_pages :: "pylib \<Rightarrow> int \<Rightarrow> (nat \<Rightarrow> page_obs) \<Rightarrow> nat \<Rightarrow> pdata \<Rightarrow> status \<times> pdata \<times> nat" where
  "deep_pages L year src page_count d =
     (if page_count < max_pages then
        (case src page_count of
           ContentError \<Rightarrow> (Raised, d, page_count)
         | Content full_items nv \<Rightarrow>
             (case scan_full_items L year full_items d of
                (EarlyExit, d1) \<Rightarrow> (EarlyExit, d1, page_count)
              | (Raised, d1) \<Rightarrow> (Raised, d1, page_count)
              | (Completed, d1) \<Rightarrow>
                  (case nv of
                     NextClicked \<Rightarrow> deep_pages L year src (page_count + 1) d1
                   | NoNextButton \<Rightarrow> (Completed, d1, page_count)
                   | NavRaised \<Rightarrow> (Raised, d1, page_count))))
      else (Completed, d, page_count))"
  by pat_completeness auto
termination
  by (relation "measure (\<lambda>(L, year, src, page_count, d). max_pages - page_count)") auto

text \<open>
  The page as \<open>parse_timeline\<close> sees it: the abbreviated items (\<open>None\<close> when reading the
  page content raises) and the deep-dive environment.
\<close>

record timeline_page =
  abbreviated :: "string list option"
  deep :: deep_env

definition parse_timeline :: "pylib \<Rightarrow> timeline_page \<Rightarrow> pdata \<Rightarrow> int \<Rightarrow> bool \<Rightarrow> pdata" where
  "parse_timeline L page d year do_deep_dive =
     (case abbreviated page of
        None \<Rightarrow> d
      | Some items \<Rightarrow>
          (case scan_abbreviated L year items d of
             (Raised, d1) \<Rightarrow> d1
           | (EarlyExit, d1) \<Rightarrow> d1
           | (Completed, d1) \<Rightarrow>
               if do_deep_dive then
                 (case deep page of
                    NoFullTimeline \<Rightarrow> d1
                  | FullTimeline src \<Rightarrow> fst (snd (deep_pages L year src 0 d1)))
               else d1))"

section \<open>A reference instance of the library calls\<close>

text \<open>
  Concrete evaluations need concrete library functions. The instance below follows the
  Python behaviour on ASCII text: \<open>strptime\<close> for the three formats of
  \<open>normalize_date\<close> (without the space-padded day form), \<open>strftime\<close> with zero-padded
  month and day, and leftmost regular-expression search for the three patterns.
\<close>

definition is_digit :: "char \<Rightarrow> bool" where
  "is_digit c = (48 \<le> (of_char c :: nat) \<and> (of_char c :: nat) \<le> 57)"

definition is_upper :: "char \<Rightarrow> bool" where
  "is_upper c = (65 \<le> (of_char c :: nat) \<and> (of_char c :: nat) \<le> 90)"

definition is_lower :: "char \<Rightarrow> bool" where
  "is_lower c = (97 \<le> (of_char c :: nat) \<and> (of_char c :: nat) \<le> 122)"

definition digit_val :: "char \<Rightarrow> int" where
  "digit_val c = int (of_char c) - 48"

definition int_of_digits :: "string \<Rightarrow> int" where
  "int_of_digits ds = foldl (\<lambda>acc c. 10 * acc + digit_val c) 0 ds"

definition digit_char :: "nat \<Rightarrow> char" where
  "digit_char n = char_of (48 + n mod 10)"

definition is_leap :: "int \<Rightarrow> bool" where
  "is_leap y = (y mod 4 = 0 \<and> (y mod 100 \<noteq> 0 \<or> y mod 400 = 0))"

definition days_in_month :: "int \<Rightarrow> int \<Rightarrow> int" where
  "days_in_month y m =
     (if m = 2 then (if is_leap y then 29 else 28)
      else if m = 4 \<or> m = 6 \<or> m = 9 \<or> m = 11 then 30 else 31)"

definition mk_date :: "int \<Rightarrow> int \<Rightarrow> int \<Rightarrow> ymd option" where
  "mk_date y m d =
     (if 1 \<le> y \<and> y \<le> 9999 \<and> 1 \<le> m \<and> m \<le> 12 \<and> 1 \<le> d \<and> d \<le> days_in_month y m
      then Some (y, m, d) else None)"

text \<open>One or two leading digits followed by the rest; \<open>None\<close> when there is no digit.\<close>

definition take_num12 :: "string \<Rightarrow> (string \<times> string) option" where
  "take_num12 s =
     (let ds = takeWhile is_digit s in
      if ds = [] \<or> length ds > 2 then None else Some (ds, drop (length ds) s))"

definition ref_strptime_mdY :: "string \<Rightarrow> ymd option" where
  "ref_strptime_mdY s =
     (case take_num12 s of
        None \<Rightarrow> None
      | Some (ms, r1) \<Rightarrow>
          (case r1 of
             [] \<Rightarrow> None
           | c1 # r2 \<Rightarrow>
               if c1 \<noteq> CHR ''/'' then None
               else (case take_num12 r2 of
                       None \<Rightarrow> None
                     | Some (ds, r3) \<Rightarrow>
                         (case r3 of
                            [] \<Rightarrow> None
                          | c2 # ys \<Rightarrow>
                              if c2 \<noteq> CHR ''/'' \<or> length ys \<noteq> 4 \<or> \<not> list_all is_digit ys
                              then None
                              else mk_date (int_of_digits ys) (int_of_digits ms)
                                     (int_of_digits ds)))))"

definition month_names :: "string list" where
  "month_names = [''january'', ''february'', ''march'', ''april'', ''may'', ''june'', ''july'',
                  ''august'', ''september'', ''october'', ''november'', ''december'']"

text \<open>The month (1 to 12) whose name, or its first three letters, starts \<open>s\<close>, and the rest.\<close>

fun match_month :: "bool \<Rightarrow> string list \<Rightarrow> int \<Rightarrow> string \<Rightarrow> (int \<times> string) option" where
  "match_month abbr [] k s = None"
| "match_month abbr (nm # nms) k s =
     (let pat = (if abbr then take 3 nm else nm) in
      if startswith (py_lower s) pat then Some (k, drop (length pat) s)
      else match_month abbr nms (k + 1) s)"

definition ref_strptime_named :: "bool \<Rightarrow> string \<Rightarrow> ymd option" where
  "ref_strptime_named abbr s =
     (case match_month abbr month_names 1 s of
        None \<Rightarrow> None
      | Some (m, r1) \<Rightarrow>
          (let r2 = dropWhile is_space r1 in
           if r2 = r1 then None
           else (case take_num12 r2 of
                   None \<Rightarrow> None
                 | Some (ds, r3) \<Rightarrow>
                     (case r3 of
                        [] \<Rightarrow> None
                      | c # r4 \<Rightarrow>
                          (let ys = dropWhile is_space r4 in
                           if c \<noteq> CHR '','' \<or> ys = r4 \<or> length ys \<noteq> 4 \<or> \<not> list_all is_digit ys
                           then None
                           else mk_date (int_of_digits ys) m (int_of_digits ds))))))"

definition ref_strptime :: "string \<Rightarrow> string \<Rightarrow> ymd option" where
  "ref_strptime s fmt =
     (if fmt = fmt_mdY then ref_strptime_mdY s
      else if fmt = fmt_bdY then ref_strptime_named True s
      else if fmt = fmt_BdY then ref_strptime_named False s
      else None)"

definition pad2 :: "int \<Rightarrow> string" where
  "pad2 n = [digit_char (nat n div 10), digit_char (nat n)]"

definition pad4 :: "int \<Rightarrow> string" where
  "pad4 n = [digit_char (nat n div 1000), digit_char (nat n div 100),
             digit_char (nat n div 10), digit_char (nat n)]"

definition ref_strftime_mdY :: "ymd \<Rightarrow> string" where
  "ref_strftime_mdY dt = (case dt of (y, m, d) \<Rightarrow> pad2 m @ ''/'' @ pad2 d @ ''/'' @ pad4 y)"

text \<open>
  The date pattern \<open>[A-Z][a-z]+\s+\d{1,2},\s+\d{4}|\d{1,2}/\d{1,2}/\d{4}\<close>, matched at
  the start of a string; the result is the matched text.
\<close>

definition match_named_date :: "string \<Rightarrow> string option" where
  "match_named_date s =
     (case s of
        [] \<Rightarrow> None
      | c # r0 \<Rightarrow>
          (let ls = takeWhile is_lower r0; r1 = drop (length ls) r0;
               w1 = takeWhile is_space r1; r2 = drop (length w1) r1;
               ds = takeWhile is_digit r2;
               dd = (if length ds \<ge> 2 \<and> startswith (drop 2 r2) '','' then take 2 ds
                     else take 1 ds);
               r3 = drop (length dd) r2;
               w2 = takeWhile is_space (drop 1 r3); r4 = drop (length w2) (drop 1 r3);
               ys = take 4 r4
           in if is_upper c \<and> ls \<noteq> [] \<and> w1 \<noteq> [] \<and> dd \<noteq> [] \<and> startswith r3 '',''
                 \<and> w2 \<noteq> [] \<and> length ys = 4 \<and> list_all is_digit ys
              then Some (c # ls @ w1 @ dd @ '','' @ w2 @ ys) else None))"

text \<open>\<open>\d{1,2}/\<close> at the start of a string: the digits and what follows the slash.\<close>

definition match_num_slash :: "string \<Rightarrow> (string \<times> string) option" where
  "match_num_slash s =
     (let ds = takeWhile is_digit s;
          dd = (if length ds \<ge> 2 \<and> startswith (drop 2 s) ''/'' then take 2 ds else take 1 ds);
          r = drop (length dd) s
      in if dd \<noteq> [] \<and> startswith r ''/'' then Some (dd, drop 1 r) else None)"

definition match_slash_date :: "string \<Rightarrow> string option" where
  "match_slash_date s =
     (case match_num_slash s of
        None \<Rightarrow> None
      | Some (ms, r1) \<Rightarrow>
          (case match_num_slash r1 of
             None \<Rightarrow> None
           | Some (ds, r2) \<Rightarrow>
               (let ys = take 4 r2 in
                if length ys = 4 \<and> list_all is_digit ys
                then Some (ms @ ''/'' @ ds @ ''/'' @ ys) else None)))"

fun ref_search_date :: "string \<Rightarrow> string option" where
  "ref_search_date [] = None"
| "ref_search_date (c # cs) =
     (case match_named_date (c # cs) of
        Some g \<Rightarrow> Some g
      | None \<Rightarrow>
          (case match_slash_date (c # cs) of
             Some g \<Rightarrow> Some g
           | None \<Rightarrow> ref_search_date cs))"

text \<open>The team pattern \<open>(?:to|with|at|commits to)\s+([A-Z][^,.]+)\<close>.\<close>

definition after_keyword :: "string \<Rightarrow> string \<Rightarrow> string option" where
  "after_keyword kw s =
     (if startswith s kw then
        (let r = drop (length kw) s; w = takeWhile is_space r; t = drop (length w) r;
             g = takeWhile (\<lambda>c. c \<noteq> CHR '','' \<and> c \<noteq> CHR ''.'') t
         in if w \<noteq> [] \<and> length g \<ge> 2 \<and> is_upper (hd g) then Some g else None)
      else None)"

fun first_keyword :: "string list \<Rightarrow> string \<Rightarrow> string option" where
  "first_keyword [] s = None"
| "first_keyword (kw # kws) s =
     (case after_keyword kw s of Some g \<Rightarrow> Some g | None \<Rightarrow> first_keyword kws s)"

fun ref_search_team :: "string \<Rightarrow> string option" where
  "ref_search_team [] = None"
| "ref_search_team (c # cs) =
     (case first_keyword [''to'', ''with'', ''at'', ''commits to''] (c # cs) of
        Some g \<Rightarrow> Some g
      | None \<Rightarrow> ref_search_team cs)"

text \<open>
  The draft team pattern
  \<open>(?:Draft[:\s]+)?([A-Z][A-Za-z0-9\s\.]+?)\s+(?:select|pick)\<close>, searched ignoring
  case. \<open>lazy_group acc s\<close> extends the group \<open>acc\<close> (kept reversed) by as few characters
  of \<open>s\<close> as possible until whitespace and one of the two verbs follow.
\<close>

definition is_alpha :: "char \<Rightarrow> bool" where
  "is_alpha c = (is_upper c \<or> is_lower c)"

definition team_char :: "char \<Rightarrow> bool" where
  "team_char c = (is_alpha c \<or> is_digit c \<or> is_space c \<or> c = CHR ''.'')"

definition verb_follows :: "string \<Rightarrow> bool" where
  "verb_follows s =
     (let w = takeWhile is_space s; r = py_lower (drop (length w) s)
      in w \<noteq> [] \<and> (startswith r ''select'' \<or> startswith r ''pick''))"

fun lazy_group :: "string \<Rightarrow> string \<Rightarrow> string option" where
  "lazy_group acc [] = None"
| "lazy_group acc (c # cs) =
     (if length acc \<ge> 2 \<and> verb_follows (c # cs) then Some (rev acc)
      else if team_char c then lazy_group (c # acc) cs
      else None)"

definition draft_group_at :: "string \<Rightarrow> string option" where
  "draft_group_at s =
     (case s of [] \<Rightarrow> None
      | c # cs \<Rightarrow> if is_alpha c then lazy_group [c] cs else None)"

definition draft_match_at :: "string \<Rightarrow> string option" where
  "draft_match_at s =
     (let r = drop 5 s; sep = takeWhile (\<lambda>c. c = CHR '':'' \<or> is_space c) r;
          with_prefix =
            (if startswith (py_lower s) ''draft'' \<and> sep \<noteq> []
             then draft_group_at (drop (length sep) r) else None)
      in case with_prefix of Some g \<Rightarrow> Some g | None \<Rightarrow> draft_group_at s)"

fun ref_search_draft_team :: "string \<Rightarrow> string option" where
  "ref_search_draft_team [] = None"
| "ref_search_draft_team (c # cs) =
     (case draft_match_at (c # cs) of
        Some g \<Rightarrow> Some g
      | None \<Rightarrow> ref_search_draft_team cs)"

definition ref_sub_draft :: "string \<Rightarrow> string" where
  "ref_sub_draft t =
     (if startswith (py_lower t) ''draft'' then dropWhile is_space (drop 5 t) else t)"

text \<open>
  The player id pattern \<open>/player/[^/]+-(\d+)/\<close>: the path segment after
  \<open>/player/\<close> must be closed by a slash and end in a hyphen and digits.
\<close>

definition id_of_segment :: "string \<Rightarrow> string option" where
  "id_of_segment rest =
     (let seg = takeWhile (\<lambda>c. c \<noteq> CHR ''/'') rest;
          ds = rev (takeWhile is_digit (rev seg));
          pre = take (length seg - length ds) seg
      in if length seg < length rest \<and> ds \<noteq> [] \<and> length pre \<ge> 2 \<and> last pre = CHR ''-''
         then Some ds else None)"

fun ref_search_player_id :: "string \<Rightarrow> string option" where
  "ref_search_player_id [] = None"
| "ref_search_player_id (c # cs) =
     (case (if startswith (c # cs) ''/player/'' then id_of_segment (drop 8 (c # cs)) else None) of
        Some g \<Rightarrow> Some g
      | None \<Rightarrow> ref_search_player_id cs)"

definition ref_lib :: pylib where
  "ref_lib = \<lparr> strptime = ref_strptime, strftime_mdY = ref_strftime_mdY,
               search_date = ref_search_date, search_team = ref_search_team,
               search_draft_team = ref_search_draft_team, sub_draft = ref_sub_draft,
               search_player_id = ref_search_player_id \<rparr>"

text \<open>A record with no entries and the initial priority of \<open>parse_profile\<close>.\<close>

definition blank_data :: pdata where
  "blank_data = \<lparr> entries = Map.empty, date_priority = Some (-1) \<rparr>"

text \<open>Two timeline items used in concrete evaluations.\<close>

definition late_signing :: string where
  "late_signing = ''Signed with Texas on 09/05/2019''"

definition sept_commit :: string where
  "sept_commit = ''Committed to Alabama Sept 5, 2019''"

section \<open>Reference notions for the priority merge\<close>

text \<open>
  An item is a valid candidate when its priority is positive and its extracted date is
  not \<open>NA\<close> and passes the validity check of the recruiting year.
\<close>

definition event_priority :: "string \<Rightarrow> int" where
  "event_priority item = item_priority (clean_text item)"

definition valid_event :: "pylib \<Rightarrow> int \<Rightarrow> string \<Rightarrow> bool" where
  "valid_event L year item =
     (let t = clean_text item in
      0 < item_priority t \<and> found_date L t \<noteq> ''NA''
      \<and> is_date_valid_for_class L (found_date L t) year)"

text \<open>The greatest of the starting priority and the priorities of the valid candidates.\<close>

definition best_priority :: "pylib \<Rightarrow> int \<Rightarrow> int \<Rightarrow> string list \<Rightarrow> int" where
  "best_priority L year p0 items =
     Max (insert p0 (event_priority ` {item \<in> set items. valid_event L year item}))"

text \<open>
  The items of the full-timeline pages that the pagination reaches from page
  \<open>page_count\<close> on, the early exit left aside: pages follow one another while the next
  button is clicked, up to \<open>max_pages\<close> pages.
\<close>

function reachable_items :: "(nat \<Rightarrow> page_obs) \<Rightarrow> nat \<Rightarrow> string list" where
  "reachable_items src page_count =
     (if page_count < max_pages then
        (case src page_count of
           ContentError \<Rightarrow> []
         | Content full_items nv \<Rightarrow>
             full_items @ (case nv of
                             NextClicked \<Rightarrow> reachable_items src (page_count + 1)
                           | NoNextButton \<Rightarrow> []
                           | NavRaised \<Rightarrow> []))
      else [])"
  by pat_completeness auto
termination
  by (relation "measure (\<lambda>(src, page_count). max_pages - page_count)") auto

definition timeline_events :: "timeline_page \<Rightarrow> bool \<Rightarrow> string list" where
  "timeline_events page do_deep_dive =
     (case abbreviated page of
        None \<Rightarrow> []
      | Some items \<Rightarrow>
          items @ (if do_deep_dive then
                     (case deep page of
                        NoFullTimeline \<Rightarrow> []
                      | FullTimeline src \<Rightarrow> reachable_items src 0)
                   else []))"

text \<open>The two keys that the draft block reads are present in the dict.\<close>

definition draft_keys :: "pdata \<Rightarrow> bool" where
  "draft_keys d = (entries d ''Draft Date'' \<noteq> None \<and> entries d ''Draft Team'' \<noteq> None)"

section \<open>Profile reconciliation (parse_profile) and the batch executor\<close>

definition CSV_HEADERS :: "string list" where
  "CSV_HEADERS =
     [''247 ID'', ''Player Name'', ''Position'', ''Height'', ''Weight'', ''High School'',
      ''City, ST'', ''Class'', ''247 Stars'', ''247 Rating'', ''247 National Rank'',
      ''247 Position'', ''247 Position Rank'', ''Composite Stars'', ''Composite Rating'',
      ''Composite National Rank'', ''Composite Position'', ''Composite Position Rank'',
      ''Signed Date'', ''Signed Team'', ''Draft Date'', ''Draft Team'', ''Recruiting Year'',
      ''Profile URL'', ''Scrape Date'', ''Data Source'']"

definition DEEP_TIMELINE_LIMIT :: nat where "DEEP_TIMELINE_LIMIT = 1000"

text \<open>\<open>str(n)\<close> for a Python int.\<close>

function str_nat :: "nat \<Rightarrow> string" where
  "str_nat n = (if n < 10 then [digit_char n] else str_nat (n div 10) @ [digit_char n])"
  by pat_completeness auto
termination
  by (relation "measure id") auto

definition str_int :: "int \<Rightarrow> string" where
  "str_int i = (if i < 0 then CHR ''-'' # str_nat (nat (- i)) else str_nat (nat i))"

definition extract_player_id :: "pylib \<Rightarrow> string \<Rightarrow> string" where
  "extract_player_id L url = (case search_player_id L url of Some g \<Rightarrow> g | None \<Rightarrow> ''NA'')"

text \<open>\<open>{header: "NA" for header in CSV_HEADERS}\<close>\<close>

definition sentinel_entries :: "string \<rightharpoonup> string" where
  "sentinel_entries = map_of (map (\<lambda>header. (header, ''NA'')) CSV_HEADERS)"

text \<open>
  The dict of \<open>parse_profile\<close> before the \<open>try\<close> block; \<open>now\<close> is the formatted
  \<open>datetime.now()\<close>.
\<close>

definition init_data :: "string \<Rightarrow> int \<Rightarrow> string \<Rightarrow> pdata" where
  "init_data url year now =
     \<lparr> entries = sentinel_entries
         (''Profile URL'' \<mapsto> url, ''Recruiting Year'' \<mapsto> str_int year,
          ''Scrape Date'' \<mapsto> now, ''Data Source'' \<mapsto> ''247Sports Composite''),
       date_priority = Some (-1) \<rparr>"

text \<open>
  What the browser does for one profile. The header and ranking extractions query the
  parsed document through selectors; they are taken as arbitrary updates of the record
  that may raise part-way (first component \<open>True\<close>). \<open>banner\<close> is the text of the
  first \<open>span\<close> or \<open>a\<close> of the commit banner, when both exist.
\<close>

record profile_env =
  goto_ok :: bool
  content_ok :: bool
  header_info :: "pdata \<Rightarrow> bool \<times> pdata"
  rankings :: "pdata \<Rightarrow> bool \<times> pdata"
  timeline :: timeline_page
  banner :: "string option"
  close_ok :: bool

definition signed_team_fallback :: "profile_env \<Rightarrow> pdata \<Rightarrow> pdata" where
  "signed_team_fallback E d =
     (case entries d ''Signed Team'' of
        None \<Rightarrow> d
      | Some v \<Rightarrow>
          if v = ''NA'' then
            (case banner E of
               None \<Rightarrow> d
             | Some raw \<Rightarrow>
                 (let team_text = clean_text raw in
                  if py_lower team_text \<notin> {''committed'', ''commitment'', ''signed''}
                  then setitem d ''Signed Team'' team_text else d))
          else d)"

definition parse_profile :: "pylib \<Rightarrow> profile_env \<Rightarrow> string \<Rightarrow> int \<Rightarrow> nat \<Rightarrow> string \<Rightarrow> pdata" where
  "parse_profile L E url year player_num now =
     (let data = init_data url year now in
      if \<not> goto_ok E then data
      else if \<not> content_ok E then data
      else
        (case header_info E (setitem data ''247 ID'' (extract_player_id L url)) of
           (True, d2) \<Rightarrow> d2
         | (False, d2) \<Rightarrow>
             (case rankings E (setitem d2 ''Class'' (str_int year)) of
                (True, d4) \<Rightarrow> d4
              | (False, d4) \<Rightarrow>
                  (let do_deep_dive = (player_num \<le> DEEP_TIMELINE_LIMIT);
                       d5 = parse_timeline L (timeline E) d4 year do_deep_dive
                   in signed_team_fallback E d5))))"

text \<open>
  \<open>scrape_player\<close>: \<open>url.split('/')[-2]\<close> raises \<open>IndexError\<close> for a URL without a
  slash, and reading \<open>data['Player Name']\<close> raises \<open>KeyError\<close> when the key is gone;
  both are caught and give the all-sentinel dict. An exception of \<open>page.close()\<close> in
  the \<open>finally\<close> block escapes: the result is \<open>None\<close>.
\<close>

definition scrape_player :: "pylib \<Rightarrow> profile_env \<Rightarrow> string \<Rightarrow> int \<Rightarrow> nat \<Rightarrow> string \<Rightarrow> pdata option" where
  "scrape_player L E url year player_num now =
     (let result =
        (if \<not> contains ''/'' url then \<lparr> entries = sentinel_entries, date_priority = None \<rparr>
         else (let data = parse_profile L E url year player_num now in
               case entries data ''Player Name'' of
                 None \<Rightarrow> \<lparr> entries = sentinel_entries, date_priority = None \<rparr>
               | Some _ \<Rightarrow> data))
      in if close_ok E then Some result else None)"

text \<open>
  The calls \<open>scrape_player(page, url, year, player_num, total)\<close> that one batch makes,
  for the concurrency width \<open>w\<close> (\<open>MAX_CONCURRENT\<close>).
\<close>

definition batch_calls :: "nat \<Rightarrow> string list \<Rightarrow> nat \<Rightarrow> (string \<times> nat) list" where
  "batch_calls w urls batch_num =
     map (\<lambda>(i, url). (url, batch_num * w + i + 1)) (enumerate 0 urls)"

text \<open>
  \<open>asyncio.gather(..., return_exceptions=True)\<close> keeps an escaped exception as a
  result; only the dicts are kept, without their \<open>_date_priority\<close> key. \<open>web\<close> gives
  the browser behaviour for each URL.
\<close>

definition scrape_player_batch ::
  "pylib \<Rightarrow> (string \<Rightarrow> profile_env) \<Rightarrow> string \<Rightarrow> nat \<Rightarrow> string list \<Rightarrow> int \<Rightarrow> nat \<Rightarrow> pdata list" where
  "scrape_player_batch L web now w urls year batch_num =
     map (\<lambda>result. result\<lparr>date_priority := None\<rparr>)
       (List.map_filter (\<lambda>(url, player_num). scrape_player L (web url) url year player_num now)
          (batch_calls w urls batch_num))"

text \<open>The resume slice of \<open>scrape_year\<close>: \<open>player_urls[START_FROM_PLAYER:]\<close> when positive.\<close>

definition resume_from :: "int \<Rightarrow> string list \<Rightarrow> string list" where
  "resume_from start player_urls = (if start > 0 then drop (nat start) player_urls else player_urls)"


function year_batches ::
  "pylib \<Rightarrow> (string \<Rightarrow> profile_env) \<Rightarrow> string \<Rightarrow> nat \<Rightarrow> string list \<Rightarrow> int \<Rightarrow> nat \<Rightarrow> pdata list" where
  "year_batches L web now w player_urls year i =
     (if 0 < w \<and> i < length player_urls
      then scrape_player_batch L web now w (take w (drop i player_urls)) year (i div w)
             @ year_batches L web now w player_urls year (i + w)
      else [])"
  by pat_completeness auto
termination
  by (relation "measure (\<lambda>(L, web, now, w, player_urls, year, i). length player_urls - i)") auto

definition scrape_year ::
  "pylib \<Rightarrow> (string \<Rightarrow> profile_env) \<Rightarrow> string \<Rightarrow> nat \<Rightarrow> int \<Rightarrow> string list \<Rightarrow> int \<Rightarrow> pdata list" where
  "scrape_year L web now w start player_urls year =
     year_batches L web now w (resume_from start player_urls) year 0"



section \<open>Sample inputs for concrete evaluations\<close>

definition sample_url :: string where
  "sample_url = ''https://247sports.com/player/joe-smith-46087/''"

definition sample_data :: pdata where
  "sample_data = init_data sample_url 2019 ''2026-02-20 10:00:00''"

definition signing_item :: string where
  "signing_item = ''Signed at Utah, 2/6/2019''"

definition commit_item :: string where
  "commit_item = ''Commits to Ohio, 6/1/2018''"

text \<open>
  A full timeline whose first page holds a signing followed by a commitment and one more
  signing, and whose later pages hold the commitment again.
\<close>

definition sample_history :: "nat \<Rightarrow> page_obs" where
  "sample_history n =
     (if n = 0 then Content [signing_item, commit_item, signing_item] NextClicked
      else Content [commit_item] NextClicked)"

definition sample_page :: timeline_page where
  "sample_page = \<lparr> abbreviated = Some [signing_item], deep = FullTimeline sample_history \<rparr>"







section \<open>Identity normalizer (normalize_player_url)\<close>

definition player_prefix :: string where
  "player_prefix = ''https://247sports.com/player/''"

text \<open>
  \<open>re.match(r'(https://247sports\.com/player/[^/]+)', url)\<close>: the prefix at the start
  of the string, followed by the longest non-empty run of characters other than a slash.
\<close>

definition match_player :: "string \<Rightarrow> string option" where
  "match_player url =
     (let seg = takeWhile (\<lambda>c. c \<noteq> CHR ''/'') (drop (length player_prefix) url) in
      if startswith url player_prefix \<and> seg \<noteq> [] then Some (player_prefix @ seg) else None)"

definition normalize_player_url :: "string \<Rightarrow> string" where
  "normalize_player_url url =
     (let u1 = split_first (CHR ''#'') (split_first (CHR ''?'') url);
          u2 = py_replace ''://www.'' ''://'' u1;
          u3 = py_replace ''http://'' ''https://'' u2
      in case match_player u3 of Some g \<Rightarrow> g @ ''/'' | None \<Rightarrow> u3)"

text \<open>\<open>list(dict.fromkeys(xs))\<close>: the first occurrence of every element, in order.\<close>

fun py_dedup_acc :: "'a list \<Rightarrow> 'a list \<Rightarrow> 'a list" where
  "py_dedup_acc seen [] = []"
| "py_dedup_acc seen (x # xs) =
     (if x \<in> set seen then py_dedup_acc seen xs else x # py_dedup_acc (x # seen) xs)"

definition py_dedup :: "'a list \<Rightarrow> 'a list" where
  "py_dedup xs = py_dedup_acc [] xs"

section \<open>List convergence driver (click_load_more_until_complete)\<close>

text \<open>
  One pass through the \<open>try\<close> block of a load-more loop, as the page decides it:
  \<^item> \<open>Clicked\<close>: the button is visible, the click and the statements after it succeed;
  \<^item> \<open>Absent\<close>: no visible button;
  \<^item> \<open>Failed\<close>: an exception before the click took effect;
  \<^item> \<open>ClickedFailed\<close>: the click succeeded and a later statement of the block raised.
  The page is a state machine: \<open>attempt\<close> gives the outcome of a pass and the next page
  state, \<open>peek\<close> the post-loop visibility check (\<open>None\<close> when it raises). The item
  counts read for progress messages and the waits of the handlers are taken to return.
\<close>

datatype obs = Clicked | Absent | Failed | ClickedFailed

record 's source =
  attempt :: "'s \<Rightarrow> obs \<times> 's"
  peek :: "'s \<Rightarrow> bool option"

datatype stop = Complete | TooManyFailures | Ceiling

record 's loop_result =
  reason :: stop
  page_state :: 's
  click_count :: nat
  consecutive_failures :: nat
  no_button_checks :: nat
  passes :: nat

text \<open>
  The \<open>while click_count < max_clicks\<close> loop of the full crawl; \<open>n\<close> counts the passes
  made.
\<close>

function load_more_loop ::
  "nat \<Rightarrow> 's source \<Rightarrow> 's \<Rightarrow> nat \<Rightarrow> nat \<Rightarrow> nat \<Rightarrow> nat \<Rightarrow> 's loop_result" where
  "load_more_loop max_clicks src s clicks fails nobtn n =
     (if clicks < max_clicks then
        (case attempt src s of
           (Clicked, s') \<Rightarrow> load_more_loop max_clicks src s' (clicks + 1) 0 0 (n + 1)
         | (ClickedFailed, s') \<Rightarrow>
             if 0 + 1 \<ge> (10::nat)
             then \<lparr> reason = TooManyFailures, page_state = s', click_count = clicks + 1,
                    consecutive_failures = 1, no_button_checks = 0, passes = n + 1 \<rparr>
             else load_more_loop max_clicks src s' (clicks + 1) 1 0 (n + 1)
         | (Absent, s') \<Rightarrow>
             if nobtn + 1 \<ge> 3
             then \<lparr> reason = Complete, page_state = s', click_count = clicks,
                    consecutive_failures = fails, no_button_checks = nobtn + 1, passes = n + 1 \<rparr>
             else load_more_loop max_clicks src s' clicks fails (nobtn + 1) (n + 1)
         | (Failed, s') \<Rightarrow>
             if fails + 1 \<ge> 10
             then \<lparr> reason = TooManyFailures, page_state = s', click_count = clicks,
                    consecutive_failures = fails + 1, no_button_checks = nobtn, passes = n + 1 \<rparr>
             else load_more_loop max_clicks src s' clicks (fails + 1) nobtn (n + 1))
      else \<lparr> reason = Ceiling, page_state = s, click_count = clicks,
             consecutive_failures = fails, no_button_checks = nobtn, passes = n \<rparr>)"
  by pat_completeness auto
termination
  by (relation "measure (\<lambda>(max_clicks, src, s, clicks, fails, nobtn, n).
                   (max_clicks - clicks) * 14 + (10 - fails) + (3 - nobtn))") auto

text \<open>
  The cleanup loop \<open>for _ in range(50)\<close> after the post-loop check: it clicks while the
  button is visible, goes on after an exception and stops when the button is gone.
  The result is the page state and the number of clicks made.
\<close>

fun cleanup_loop :: "'s source \<Rightarrow> nat \<Rightarrow> 's \<Rightarrow> nat \<Rightarrow> 's \<times> nat" where
  "cleanup_loop src 0 s clicks = (s, clicks)"
| "cleanup_loop src (Suc k) s clicks =
     (case attempt src s of
        (Clicked, s') \<Rightarrow> cleanup_loop src k s' (clicks + 1)
      | (ClickedFailed, s') \<Rightarrow> cleanup_loop src k s' (clicks + 1)
      | (Failed, s') \<Rightarrow> cleanup_loop src k s' clicks
      | (Absent, s') \<Rightarrow> (s', clicks))"

definition max_clicks_for :: "bool \<Rightarrow> nat" where
  "max_clicks_for test_mode = (if test_mode then 20 else 500)"

text \<open>The loop and the post-loop verification: the final page state and all clicks made.\<close>

definition drive_listing :: "bool \<Rightarrow> 's source \<Rightarrow> 's \<Rightarrow> 's \<times> nat" where
  "drive_listing test_mode src s0 =
     (let r = load_more_loop (max_clicks_for test_mode) src s0 0 0 0 0 in
      case peek src (page_state r) of
        Some True \<Rightarrow> cleanup_loop src 50 (page_state r) (click_count r)
      | Some False \<Rightarrow> (page_state r, click_count r)
      | None \<Rightarrow> (page_state r, click_count r))"

text \<open>
  The link extraction after the loops: \<open>links s\<close> are the hrefs that the first
  non-empty selector yields on the final page.
\<close>

definition extract_player_urls :: "bool \<Rightarrow> string list \<Rightarrow> string list" where
  "extract_player_urls test_mode player_links =
     (let player_urls =
        py_dedup (map normalize_player_url
          (filter (\<lambda>u. u \<noteq> [] \<and> contains ''/player/'' u \<and> contains ''247sports.com'' u)
             player_links))
      in if test_mode \<and> length player_urls > 300 then take 300 player_urls else player_urls)"

definition click_load_more_until_complete ::
  "bool \<Rightarrow> 's source \<Rightarrow> ('s \<Rightarrow> string list) \<Rightarrow> 's \<Rightarrow> string list" where
  "click_load_more_until_complete test_mode src links s0 =
     extract_player_urls test_mode (links (fst (drive_listing test_mode src s0)))"

text \<open>
  A simulated listing of \<open>all_links\<close>: the page state is the number of items shown,
  each click shows \<open>page_size\<close> more, and the button is visible while items remain.
\<close>

definition sim_source :: "nat \<Rightarrow> nat \<Rightarrow> nat source" where
  "sim_source item_total page_size =
     \<lparr> attempt = (\<lambda>shown. if shown < item_total then (Clicked, min item_total (shown + page_size))
                            else (Absent, shown)),
       peek = (\<lambda>shown. Some (shown < item_total)) \<rparr>"

section \<open>Gap-repair list loop (get_players_from_list)\<close>







text \<open>Distinct player links for a simulated listing, and three of them spelled out.\<close>

definition sim_links :: "nat \<Rightarrow> string list" where
  "sim_links item_total = map (\<lambda>i. player_prefix @ ''p-'' @ str_nat i @ ''/'') [0..<item_total]"

definition three_links :: "string list" where
  "three_links = [''https://247sports.com/player/a-1/'', ''http://www.247sports.com/player/b-2/'',
                  ''https://247sports.com/player/c-3/college-9/?x=1'']"

text \<open>A remainder of a URL that is empty or begins a further path segment.\<close>

definition slash_led :: "string \<Rightarrow> bool" where
  "slash_led t = (case t of [] \<Rightarrow> True | c # _ \<Rightarrow> c = CHR ''/'')"

section \<open>Gap resolution (main of patch_missing_ranks.py)\<close>

text \<open>
  A Python dict with string or integer keys is an association list in insertion order;
  \<open>dict_set\<close> is \<open>d[k] = v\<close>, which keeps the place of a key already present.
\<close>

fun dict_set :: "'k \<Rightarrow> 'v \<Rightarrow> ('k \<times> 'v) list \<Rightarrow> ('k \<times> 'v) list" where
  "dict_set k v [] = [(k, v)]"
| "dict_set k v ((k', v') # kvs) =
     (if k = k' then (k, v) # kvs else (k', v') # dict_set k v kvs)"

record player =
  player_url :: string
  listed_name :: string

text \<open>\<open>{item['rank']: item for item in items}\<close>: the dict built from the list items.\<close>

definition build_rank_map :: "(nat \<times> player) list \<Rightarrow> (nat \<times> player) list" where
  "build_rank_map items_data = foldl (\<lambda>m (rank, p). dict_set rank p m) [] items_data"

record target =
  target_name :: string
  missing_composite_rank :: nat

text \<open>The entries of the dict of \<open>parse_profile\<close> that \<open>main\<close> reads.\<close>

record scraped =
  id247 :: string
  player_name :: string
  rank247 :: string
  rank_composite :: string

record diagnostic =
  diag_year :: int
  diag_name :: string
  diag_url :: string
  expected_composite_rank :: nat
  got_247_rank :: string
  got_composite_rank :: string
  success :: bool

text \<open>
  Step 2 of \<open>main\<close>: the loop over the composite gaps. It returns the target players and
  the ranks reported as not found on the list page.
\<close>

fun collect_targets ::
  "(nat \<times> player) list \<Rightarrow> nat list \<Rightarrow> (string \<times> target) list \<Rightarrow> nat list
     \<Rightarrow> (string \<times> target) list \<times> nat list" where
  "collect_targets rank_map [] target_players not_found = (target_players, not_found)"
| "collect_targets rank_map (rank # ranks) target_players not_found =
     (case map_of rank_map rank of
        Some p \<Rightarrow>
          (case map_of target_players (player_url p) of
             None \<Rightarrow>
               collect_targets rank_map ranks
                 (dict_set (player_url p) \<lparr> target_name = listed_name p, missing_composite_rank = rank \<rparr>
                    target_players) not_found
           | Some info \<Rightarrow>
               collect_targets rank_map ranks
                 (dict_set (player_url p) (info\<lparr>missing_composite_rank := rank\<rparr>) target_players)
                 not_found)
      | None \<Rightarrow> collect_targets rank_map ranks target_players (not_found @ [rank]))"

text \<open>
  Step 3: every target is fetched, appended to \<open>all_patched\<close> (kept here as the list of
  fetched URLs) and recorded in the diagnostics under the key \<open>f"{year}_{id}"\<close>.
\<close>

fun scrape_targets ::
  "(string \<Rightarrow> scraped) \<Rightarrow> int \<Rightarrow> (string \<times> target) list \<Rightarrow> string list
     \<Rightarrow> (string \<times> diagnostic) list \<Rightarrow> string list \<times> (string \<times> diagnostic) list" where
  "scrape_targets fetch year [] all_patched diagnostics = (all_patched, diagnostics)"
| "scrape_targets fetch year ((u, info) # rest) all_patched diagnostics =
     (let data = fetch u;
          got_247 = (rank247 data \<noteq> ''NA'');
          got_comp = (rank_composite data \<noteq> ''NA'')
      in scrape_targets fetch year rest (all_patched @ [u])
           (dict_set (str_int year @ ''_'' @ id247 data)
              \<lparr> diag_year = year, diag_name = player_name data, diag_url = u,
                expected_composite_rank = missing_composite_rank info,
                got_247_rank = rank247 data, got_composite_rank = rank_composite data,
                success = (got_247 \<or> got_comp) \<rparr>
              diagnostics))"

definition missing_247_not_covered ::
  "int \<Rightarrow> nat list \<Rightarrow> (string \<times> diagnostic) list \<Rightarrow> nat list" where
  "missing_247_not_covered year gaps_247 diagnostics =
     filter (\<lambda>r. \<not> list_ex (\<lambda>d. diag_year d = year \<and> got_247_rank d = str_nat r)
                    (map snd diagnostics))
       gaps_247"

text \<open>The loop over the remaining 247 gaps against the 247-only list.\<close>

fun second_pass ::
  "(nat \<times> player) list \<Rightarrow> nat list \<Rightarrow> (string \<times> diagnostic) list \<Rightarrow> string list \<Rightarrow> nat list
     \<Rightarrow> string list \<times> nat list" where
  "second_pass r247_map [] diagnostics all_patched not_found = (all_patched, not_found)"
| "second_pass r247_map (rank # ranks) diagnostics all_patched not_found =
     (case map_of r247_map rank of
        Some p \<Rightarrow>
          (let already_scraped = list_ex (\<lambda>d. diag_url d = player_url p) (map snd diagnostics) in
           if \<not> already_scraped
           then second_pass r247_map ranks diagnostics (all_patched @ [player_url p]) not_found
           else second_pass r247_map ranks diagnostics all_patched not_found)
      | None \<Rightarrow> second_pass r247_map ranks diagnostics all_patched (not_found @ [rank]))"

record patch_result =
  fetched :: "string list"
  composite_not_found :: "nat list"
  r247_not_found :: "nat list"
  diagnostics_out :: "(string \<times> diagnostic) list"

text \<open>
  The body of the loop over the years, for one year. \<open>composite_items\<close> are the list
  items of the composite page; \<open>r247_items\<close> those of the 247-only page, \<open>None\<close>
  when loading it raises. A year whose composite list is empty is skipped.
\<close>

definition patch_year ::
  "(string \<Rightarrow> scraped) \<Rightarrow> int \<Rightarrow> nat list \<Rightarrow> nat list \<Rightarrow> (nat \<times> player) list
     \<Rightarrow> (nat \<times> player) list option \<Rightarrow> string list \<Rightarrow> (string \<times> diagnostic) list \<Rightarrow> patch_result" where
  "patch_year fetch year gaps_composite gaps_247 composite_items r247_items all_patched diagnostics =
     (let rank_map = build_rank_map composite_items in
      if rank_map = [] then
        \<lparr> fetched = all_patched, composite_not_found = [], r247_not_found = [],
          diagnostics_out = diagnostics \<rparr>
      else
        (let (target_players, not_found) = collect_targets rank_map gaps_composite [] [];
             (patched1, diags1) = scrape_targets fetch year target_players all_patched diagnostics;
             remaining = missing_247_not_covered year gaps_247 diags1
         in if remaining \<noteq> [] then
              (case r247_items of
                 None \<Rightarrow>
                   \<lparr> fetched = patched1, composite_not_found = not_found, r247_not_found = [],
                     diagnostics_out = diags1 \<rparr>
               | Some items \<Rightarrow>
                   (let (patched2, not_found_247) =
                          second_pass (build_rank_map items) remaining diags1 patched1 []
                    in \<lparr> fetched = patched2, composite_not_found = not_found,
                         r247_not_found = not_found_247, diagnostics_out = diags1 \<rparr>))
            else \<lparr> fetched = patched1, composite_not_found = not_found, r247_not_found = [],
                   diagnostics_out = diags1 \<rparr>))"

text \<open>
  A year with one composite gap and two 247 gaps, on pages where the 247-only list shows
  the same player at both ranks.
\<close>

definition player_a :: player where
  "player_a = \<lparr> player_url = ''https://247sports.com/player/a-1/'', listed_name = ''A'' \<rparr>"

definition player_b :: player where
  "player_b = \<lparr> player_url = ''https://247sports.com/player/b-2/'', listed_name = ''B'' \<rparr>"

definition sample_fetch :: "string \<Rightarrow> scraped" where
  "sample_fetch u =
     (if u = player_url player_a
      then \<lparr> id247 = ''1'', player_name = ''A'', rank247 = ''7'', rank_composite = ''5'' \<rparr>
      else \<lparr> id247 = ''2'', player_name = ''B'', rank247 = ''1'', rank_composite = ''NA'' \<rparr>)"

section \<open>Auxiliary lemmas\<close>

lemma setitem_other: "k \<noteq> k' \<Longrightarrow> entries (setitem d k v) k' = entries d k'"
  by (simp add: setitem_def)

lemma event_priority_le: "event_priority item \<le> 100"
  by (simp add: event_priority_def item_priority_def Let_def)

lemma best_priority_Nil: "best_priority L year p0 [] = p0"
  by (simp add: best_priority_def)

lemma max_Max_insert:
  fixes p :: int
  assumes "finite S"
  shows "max p (Max (insert e S)) = Max (insert (max p e) S)"
proof (cases "S = {}")
  case True
  then show ?thesis by simp
next
  case False
  then show ?thesis using assms by (simp add: max.assoc)
qed

lemma best_priority_Cons:
  "best_priority L year p0 (item # items) =
     best_priority L year (if valid_event L year item then max p0 (event_priority item) else p0) items"
proof -
  let ?S = "event_priority ` {i \<in> set items. valid_event L year i}"
  have fin: "finite ?S" by simp
  show ?thesis
  proof (cases "valid_event L year item")
    case True
    then have "{i \<in> set (item # items). valid_event L year i}
                 = insert item {i \<in> set items. valid_event L year i}" by auto
    then have "best_priority L year p0 (item # items)
                 = Max (insert p0 (insert (event_priority item) ?S))"
      by (simp add: best_priority_def)
    also have "\<dots> = max p0 (Max (insert (event_priority item) ?S))"
      using fin by simp
    also have "\<dots> = Max (insert (max p0 (event_priority item)) ?S)"
      using fin by (rule max_Max_insert)
    finally show ?thesis using True by (simp add: best_priority_def)
  next
    case False
    then have "{i \<in> set (item # items). valid_event L year i}
                 = {i \<in> set items. valid_event L year i}" by auto
    then show ?thesis using False by (simp add: best_priority_def)
  qed
qed

lemma best_priority_append:
  "best_priority L year p0 (xs @ ys) = best_priority L year (best_priority L year p0 xs) ys"
  by (induction xs arbitrary: p0) (simp_all add: best_priority_Nil best_priority_Cons)

lemma best_priority_100: "best_priority L year 100 items = 100"
proof (induction items)
  case Nil
  show ?case by (simp add: best_priority_Nil)
next
  case (Cons a items)
  have "max 100 (event_priority a) = 100" using event_priority_le [of a] by simp
  then show ?case using Cons by (simp add: best_priority_Cons)
qed

lemma merge_event_priority:
  "get_priority (fst (merge_event L year (clean_text item) d)) =
     (if valid_event L year item then max (get_priority d) (event_priority item)
      else get_priority d)"
  by (auto simp: merge_event_def valid_event_def event_priority_def Let_def setitem_def
        get_priority_def split: option.splits)

lemma merge_event_exit:
  "merge_event L year (clean_text item) d = (d1, True) \<Longrightarrow>
     valid_event L year item \<and> event_priority item = 100 \<and> get_priority d < 100
     \<and> get_priority d1 = 100"
  by (auto simp: merge_event_def valid_event_def event_priority_def Let_def setitem_def
        get_priority_def split: option.splits if_splits)

lemma draft_logic_keys:
  "draft_keys d \<Longrightarrow> fst (draft_logic L t d) = False \<and> draft_keys (snd (draft_logic L t d))
     \<and> get_priority (snd (draft_logic L t d)) = get_priority d"
  by (auto simp: draft_keys_def draft_logic_def draft_date_step_def draft_team_step_def
        setitem_def get_priority_def Let_def split: option.splits)

lemma merge_event_keys:
  "draft_keys d \<Longrightarrow> draft_keys (fst (merge_event L year t d))"
  by (auto simp: draft_keys_def merge_event_def setitem_def Let_def split: option.splits)

lemma scan_abbreviated_priority:
  "draft_keys d \<Longrightarrow>
     fst (scan_abbreviated L year items d) = Completed
     \<and> draft_keys (snd (scan_abbreviated L year items d))
     \<and> get_priority (snd (scan_abbreviated L year items d))
         = best_priority L year (get_priority d) items"
proof (induction items arbitrary: d)
  case Nil
  then show ?case by (simp add: best_priority_Nil)
next
  case (Cons item items)
  let ?t = "clean_text item"
  obtain d1 where dl: "draft_logic L ?t d = (False, d1)" and k1: "draft_keys d1"
    and p1: "get_priority d1 = get_priority d"
    using draft_logic_keys [OF Cons.prems, of L ?t] by (cases "draft_logic L ?t d") auto
  let ?d2 = "fst (merge_event L year ?t d1)"
  have k2: "draft_keys ?d2" using k1 by (rule merge_event_keys)
  have p2: "get_priority ?d2 = (if valid_event L year item
              then max (get_priority d) (event_priority item) else get_priority d)"
    using merge_event_priority [of L year item d1] p1 by simp
  have step: "scan_abbreviated L year (item # items) d = scan_abbreviated L year items ?d2"
    using dl by (simp add: Let_def)
  show ?case
    using Cons.IH [OF k2] p2 by (simp only: step best_priority_Cons)
qed

lemma scan_full_items_priority:
  "get_priority (snd (scan_full_items L year items d)) = best_priority L year (get_priority d) items
   \<and> fst (scan_full_items L year items d) \<noteq> Raised
   \<and> (fst (scan_full_items L year items d) = EarlyExit
        \<longrightarrow> get_priority (snd (scan_full_items L year items d)) = 100)"
proof (induction items arbitrary: d)
  case Nil
  then show ?case by (simp add: best_priority_Nil)
next
  case (Cons item items)
  obtain d1 b where m: "merge_event L year (clean_text item) d = (d1, b)"
    by (cases "merge_event L year (clean_text item) d")
  show ?case
  proof (cases b)
    case True
    from m True have "merge_event L year (clean_text item) d = (d1, True)" by simp
    from merge_event_exit [OF this]
    have v: "valid_event L year item" and e: "event_priority item = 100"
      and lt: "get_priority d < 100" and g1: "get_priority d1 = 100" by simp_all
    have "best_priority L year (get_priority d) (item # items) = 100"
      using v e lt by (simp add: best_priority_Cons best_priority_100)
    then show ?thesis using m True g1 by simp
  next
    case False
    have p: "get_priority d1 = (if valid_event L year item
               then max (get_priority d) (event_priority item) else get_priority d)"
      using merge_event_priority [of L year item d] m by simp
    have st: "scan_full_items L year (item # items) d = scan_full_items L year items d1"
      using m False by simp
    have bp: "best_priority L year (get_priority d) (item # items)
                = best_priority L year (get_priority d1) items"
      by (simp only: best_priority_Cons p)
    show ?thesis unfolding st bp by (rule Cons.IH)
  qed
qed

declare deep_pages.simps [simp del] reachable_items.simps [simp del]

lemma deep_pages_priority:
  "get_priority (fst (snd (deep_pages L year src page_count d)))
     = best_priority L year (get_priority d) (reachable_items src page_count)"
proof (induction L year src page_count d rule: deep_pages.induct)
  case (1 L year src page_count d)
  show ?case
  proof (cases "page_count < max_pages")
    case False
    then show ?thesis
      by (simp add: best_priority_Nil deep_pages.simps [of L year src page_count d]
            reachable_items.simps [of src page_count])
  next
    case lt: True
    show ?thesis
    proof (cases "src page_count")
      case ContentError
      then show ?thesis using lt
        by (simp add: best_priority_Nil deep_pages.simps [of L year src page_count d]
              reachable_items.simps [of src page_count])
    next
      case (Content full_items nv)
      obtain st d1 where sc: "scan_full_items L year full_items d = (st, d1)"
        by (cases "scan_full_items L year full_items d")
      from scan_full_items_priority [of L year full_items d] sc
      have p1: "get_priority d1 = best_priority L year (get_priority d) full_items"
        and nr: "st \<noteq> Raised" and ex: "st = EarlyExit \<longrightarrow> get_priority d1 = 100"
        by auto
      have items: "reachable_items src page_count =
                     full_items @ (case nv of NextClicked \<Rightarrow> reachable_items src (page_count + 1)
                                   | NoNextButton \<Rightarrow> [] | NavRaised \<Rightarrow> [])"
        using lt Content by (simp add: reachable_items.simps [of src page_count])
      have bp: "best_priority L year (get_priority d) (reachable_items src page_count)
                  = best_priority L year (get_priority d1)
                      (case nv of NextClicked \<Rightarrow> reachable_items src (page_count + 1)
                       | NoNextButton \<Rightarrow> [] | NavRaised \<Rightarrow> [])"
        by (simp only: items best_priority_append p1)
      show ?thesis
      proof (cases st)
        case EarlyExit
        then have "get_priority d1 = 100" using ex by simp
        moreover have "deep_pages L year src page_count d = (EarlyExit, d1, page_count)"
          using lt Content sc EarlyExit
          by (simp add: deep_pages.simps [of L year src page_count d])
        ultimately show ?thesis by (simp add: bp best_priority_100)
      next
        case Raised
        then show ?thesis using nr by simp
      next
        case Completed
        show ?thesis
        proof (cases nv)
          case NextClicked
          have "deep_pages L year src page_count d = deep_pages L year src (page_count + 1) d1"
            using lt Content sc Completed NextClicked
            by (simp add: deep_pages.simps [of L year src page_count d])
          moreover have "get_priority (fst (snd (deep_pages L year src (page_count + 1) d1)))
                           = best_priority L year (get_priority d1)
                               (reachable_items src (page_count + 1))"
            using "1.IH" [OF lt Content sc [symmetric] Completed NextClicked] by simp
          ultimately show ?thesis by (simp add: bp NextClicked)
        next
          case NoNextButton
          then show ?thesis using lt Content sc Completed
            by (simp add: bp best_priority_Nil deep_pages.simps [of L year src page_count d])
        next
          case NavRaised
          then show ?thesis using lt Content sc Completed
            by (simp add: bp best_priority_Nil deep_pages.simps [of L year src page_count d])
        qed
      qed
    qed
  qed
qed

lemma merge_event_strict:
  "fst (merge_event L year t d) \<noteq> d \<Longrightarrow>
     get_priority d < item_priority t \<and> found_date L t \<noteq> ''NA''
     \<and> is_date_valid_for_class L (found_date L t) year"
  by (auto simp: merge_event_def Let_def split: if_splits)

lemma parse_timeline_priority:
  assumes "draft_keys d"
  shows "get_priority (parse_timeline L page d year do_deep_dive)
           = best_priority L year (get_priority d) (timeline_events page do_deep_dive)"
proof (cases "abbreviated page")
  case None
  then show ?thesis by (simp add: parse_timeline_def timeline_events_def best_priority_Nil)
next
  case (Some items)
  obtain d1 where sa: "scan_abbreviated L year items d = (Completed, d1)"
    and p1: "get_priority d1 = best_priority L year (get_priority d) items"
    using scan_abbreviated_priority [OF assms, of L year items]
    by (cases "scan_abbreviated L year items d") auto
  show ?thesis
  proof (cases "do_deep_dive")
    case False
    then show ?thesis using Some sa p1
      by (simp add: parse_timeline_def timeline_events_def)
  next
    case True
    show ?thesis
    proof (cases "deep page")
      case NoFullTimeline
      then show ?thesis using Some sa p1 True
        by (simp add: parse_timeline_def timeline_events_def)
    next
      case (FullTimeline src)
      then show ?thesis using Some sa p1 True
        by (simp add: parse_timeline_def timeline_events_def best_priority_append
              deep_pages_priority)
    qed
  qed
qed





























declare load_more_loop.simps [simp del]



lemma load_more_step_clicked:
  "clicks < max_clicks \<Longrightarrow> attempt src s = (Clicked, s') \<Longrightarrow>
     load_more_loop max_clicks src s clicks fails nobtn n =
       load_more_loop max_clicks src s' (clicks + 1) 0 0 (n + 1)"
  by (subst load_more_loop.simps) simp

lemma load_more_step_absent:
  "clicks < max_clicks \<Longrightarrow> attempt src s = (Absent, s') \<Longrightarrow>
     load_more_loop max_clicks src s clicks fails nobtn n =
       (if nobtn + 1 \<ge> 3
        then \<lparr> reason = Complete, page_state = s', click_count = clicks,
               consecutive_failures = fails, no_button_checks = nobtn + 1, passes = n + 1 \<rparr>
        else load_more_loop max_clicks src s' clicks fails (nobtn + 1) (n + 1))"
  by (subst load_more_loop.simps) simp

lemma load_more_step_ceiling:
  "\<not> clicks < max_clicks \<Longrightarrow>
     load_more_loop max_clicks src s clicks fails nobtn n =
       \<lparr> reason = Ceiling, page_state = s, click_count = clicks,
         consecutive_failures = fails, no_button_checks = nobtn, passes = n \<rparr>"
  by (subst load_more_loop.simps) simp



lemma sim_attempt:
  "attempt (sim_source T p) s = (if s < T then (Clicked, min T (s + p)) else (Absent, s))"
  by (simp add: sim_source_def)

lemma sim_loop_state:
  "s \<le> T \<Longrightarrow> clicks \<le> max_clicks \<Longrightarrow>
     page_state (load_more_loop max_clicks (sim_source T p) s clicks fails nobtn n)
       = min T (s + (max_clicks - clicks) * p)"
proof (induction max_clicks "sim_source T p" s clicks fails nobtn n rule: load_more_loop.induct)
  case (1 max_clicks s clicks fails nobtn n)
  show ?case
  proof (cases "clicks < max_clicks")
    case False
    then show ?thesis using "1.prems" by (simp add: load_more_step_ceiling)
  next
    case lt: True
    show ?thesis
    proof (cases "s < T")
      case True
      then have a: "attempt (sim_source T p) s = (Clicked, min T (s + p))"
        by (simp add: sim_attempt)
      have "page_state (load_more_loop max_clicks (sim_source T p) (min T (s + p)) (clicks + 1) 0 0 (n + 1))
              = min T (min T (s + p) + (max_clicks - (clicks + 1)) * p)"
        using "1.hyps"(1) [OF lt a [symmetric] refl] lt by simp
      also have "\<dots> = min T (s + p + (max_clicks - (clicks + 1)) * p)"
        by (simp add: min_def)
      also have "s + p + (max_clicks - (clicks + 1)) * p = s + (max_clicks - clicks) * p"
      proof -
        have "max_clicks - clicks = Suc (max_clicks - (clicks + 1))" using lt by simp
        then show ?thesis by simp
      qed
      finally show ?thesis using lt a by (simp add: load_more_step_clicked)
    next
      case False
      then have e: "s = T" using "1.prems" by simp
      have a: "attempt (sim_source T p) s = (Absent, s)" using False by (simp add: sim_attempt)
      show ?thesis
      proof (cases "nobtn + 1 \<ge> 3")
        case True
        then show ?thesis using lt a e by (simp add: load_more_step_absent)
      next
        case nb: False
        have "page_state (load_more_loop max_clicks (sim_source T p) s clicks fails (nobtn + 1) (n + 1))
                = min T (s + (max_clicks - clicks) * p)"
          using "1.hyps"(2) [OF lt a [symmetric] refl nb] "1.prems" by simp
        then show ?thesis using lt a nb by (simp add: load_more_step_absent)
      qed
    qed
  qed
qed

lemma sim_cleanup_state:
  "s \<le> T \<Longrightarrow> fst (cleanup_loop (sim_source T p) k s clicks) = min T (s + k * p)"
proof (induction k arbitrary: s clicks)
  case 0
  then show ?case by simp
next
  case (Suc k)
  show ?case
  proof (cases "s < T")
    case True
    have "fst (cleanup_loop (sim_source T p) k (min T (s + p)) (clicks + 1))
            = min T (min T (s + p) + k * p)"
      by (rule Suc.IH) simp
    also have "\<dots> = min T (s + Suc k * p)" by (simp add: min_def)
    finally show ?thesis using True by (simp add: sim_attempt)
  next
    case False
    then show ?thesis using Suc.prems by (simp add: sim_attempt)
  qed
qed

lemma sim_drive_state:
  assumes "s0 \<le> T"
  shows "fst (drive_listing test_mode (sim_source T p) s0)
           = min T (s0 + (max_clicks_for test_mode + 50) * p)"
proof -
  let ?m = "max_clicks_for test_mode"
  let ?r = "load_more_loop ?m (sim_source T p) s0 0 0 0 0"
  have st: "page_state ?r = min T (s0 + ?m * p)"
    using sim_loop_state [OF assms, of 0 ?m p 0 0 0] by simp
  have pk: "peek (sim_source T p) (page_state ?r) = Some (page_state ?r < T)"
    by (simp add: sim_source_def)
  show ?thesis
  proof (cases "page_state ?r < T")
    case True
    have "fst (cleanup_loop (sim_source T p) 50 (page_state ?r) (click_count ?r))
            = min T (page_state ?r + 50 * p)"
      by (rule sim_cleanup_state) (simp add: st)
    also have "\<dots> = min T (s0 + (?m + 50) * p)"
      using True by (simp add: st min_def add_mult_distrib)
    finally show ?thesis using True pk by (simp add: drive_listing_def Let_def)
  next
    case False
    then have "page_state ?r = T" by (simp add: st min_def split: if_splits)
    moreover from this have "min T (s0 + (?m + 50) * p) = T"
      using st by (simp add: min_def add_mult_distrib split: if_splits)
    ultimately show ?thesis using pk by (simp add: drive_listing_def Let_def)
  qed
qed

lemma load_more_unfold:
  "clicks < max_clicks \<Longrightarrow> attempt src s = (o', s') \<Longrightarrow>
     load_more_loop max_clicks src s clicks fails nobtn n =
       (case o' of
          Clicked \<Rightarrow> load_more_loop max_clicks src s' (clicks + 1) 0 0 (n + 1)
        | ClickedFailed \<Rightarrow> load_more_loop max_clicks src s' (clicks + 1) 1 0 (n + 1)
        | Absent \<Rightarrow>
            if nobtn + 1 \<ge> 3
            then \<lparr> reason = Complete, page_state = s', click_count = clicks,
                   consecutive_failures = fails, no_button_checks = nobtn + 1, passes = n + 1 \<rparr>
            else load_more_loop max_clicks src s' clicks fails (nobtn + 1) (n + 1)
        | Failed \<Rightarrow>
            if fails + 1 \<ge> 10
            then \<lparr> reason = TooManyFailures, page_state = s', click_count = clicks,
                   consecutive_failures = fails + 1, no_button_checks = nobtn, passes = n + 1 \<rparr>
            else load_more_loop max_clicks src s' clicks (fails + 1) nobtn (n + 1))"
  by (subst load_more_loop.simps) (simp split: obs.splits)

lemma load_more_click_bound:
  "clicks \<le> max_clicks \<Longrightarrow>
     click_count (load_more_loop max_clicks src s clicks fails nobtn n) \<le> max_clicks"
proof (induction max_clicks src s clicks fails nobtn n rule: load_more_loop.induct)
  case (1 max_clicks src s clicks fails nobtn n)
  show ?case
  proof (cases "clicks < max_clicks")
    case False
    then show ?thesis using "1.prems" by (simp add: load_more_step_ceiling)
  next
    case lt: True
    obtain o' s' where a: "attempt src s = (o', s')" by (cases "attempt src s")
    note u = load_more_unfold [OF lt a, of fails nobtn n]
    show ?thesis
    proof (cases o')
      case Clicked
      from "1.IH"(1) [OF lt a [symmetric] Clicked] lt show ?thesis by (simp add: u Clicked)
    next
      case Absent
      show ?thesis
      proof (cases "nobtn + 1 \<ge> 3")
        case True
        then show ?thesis using lt by (simp add: u Absent)
      next
        case False
        from "1.IH"(2) [OF lt a [symmetric] Absent False] "1.prems"
        show ?thesis using False by (simp add: u Absent)
      qed
    next
      case Failed
      show ?thesis
      proof (cases "fails + 1 \<ge> 10")
        case True
        then show ?thesis using lt by (simp add: u Failed)
      next
        case False
        from "1.IH"(3) [OF lt a [symmetric] Failed False] "1.prems"
        show ?thesis using False by (simp add: u Failed)
      qed
    next
      case ClickedFailed
      from "1.IH"(4) [OF lt a [symmetric] ClickedFailed] lt show ?thesis
        by (simp add: u ClickedFailed)
    qed
  qed
qed

lemma load_more_pass_bound:
  "passes (load_more_loop max_clicks src s clicks fails nobtn n)
     \<le> n + (max_clicks - clicks) * 14 + (10 - fails) + (3 - nobtn) + 1"
proof (induction max_clicks src s clicks fails nobtn n rule: load_more_loop.induct)
  case (1 max_clicks src s clicks fails nobtn n)
  show ?case
  proof (cases "clicks < max_clicks")
    case False
    then show ?thesis by (simp add: load_more_step_ceiling)
  next
    case lt: True
    obtain o' s' where a: "attempt src s = (o', s')" by (cases "attempt src s")
    note u = load_more_unfold [OF lt a, of fails nobtn n]
    have m: "(max_clicks - clicks) * 14 = (max_clicks - (clicks + 1)) * 14 + 14"
    proof -
      have "max_clicks - clicks = Suc (max_clicks - (clicks + 1))" using lt by simp
      then show ?thesis by simp
    qed
    show ?thesis
    proof (cases o')
      case Clicked
      have "passes (load_more_loop max_clicks src s' (clicks + 1) 0 0 (n + 1))
              \<le> n + 1 + (max_clicks - (clicks + 1)) * 14 + (10 - 0) + (3 - 0) + 1"
        by (rule "1.IH"(1) [OF lt a [symmetric] Clicked])
      then have "passes (load_more_loop max_clicks src s' (clicks + 1) 0 0 (n + 1))
              \<le> n + (max_clicks - clicks) * 14 + (10 - fails) + (3 - nobtn) + 1"
        using m by linarith
      then show ?thesis by (simp only: u Clicked obs.case)
    next
      case Absent
      show ?thesis
      proof (cases "nobtn + 1 \<ge> 3")
        case True
        then show ?thesis by (simp add: u Absent)
      next
        case False
        have "passes (load_more_loop max_clicks src s' clicks fails (nobtn + 1) (n + 1))
                \<le> n + 1 + (max_clicks - clicks) * 14 + (10 - fails) + (3 - (nobtn + 1)) + 1"
          by (rule "1.IH"(2) [OF lt a [symmetric] Absent False])
        then have "passes (load_more_loop max_clicks src s' clicks fails (nobtn + 1) (n + 1))
                \<le> n + (max_clicks - clicks) * 14 + (10 - fails) + (3 - nobtn) + 1"
          using False by linarith
        then show ?thesis using False by (simp only: u Absent obs.case if_False)
      qed
    next
      case Failed
      show ?thesis
      proof (cases "fails + 1 \<ge> 10")
        case True
        then show ?thesis by (simp add: u Failed)
      next
        case False
        have "passes (load_more_loop max_clicks src s' clicks (fails + 1) nobtn (n + 1))
                \<le> n + 1 + (max_clicks - clicks) * 14 + (10 - (fails + 1)) + (3 - nobtn) + 1"
          by (rule "1.IH"(3) [OF lt a [symmetric] Failed False])
        then have "passes (load_more_loop max_clicks src s' clicks (fails + 1) nobtn (n + 1))
                \<le> n + (max_clicks - clicks) * 14 + (10 - fails) + (3 - nobtn) + 1"
          using False by linarith
        then show ?thesis using False by (simp only: u Failed obs.case if_False)
      qed
    next
      case ClickedFailed
      have "passes (load_more_loop max_clicks src s' (clicks + 1) 1 0 (n + 1))
              \<le> n + 1 + (max_clicks - (clicks + 1)) * 14 + (10 - 1) + (3 - 0) + 1"
        by (rule "1.IH"(4) [OF lt a [symmetric] ClickedFailed]) simp
      then have "passes (load_more_loop max_clicks src s' (clicks + 1) 1 0 (n + 1))
              \<le> n + (max_clicks - clicks) * 14 + (10 - fails) + (3 - nobtn) + 1"
        using m by linarith
      then show ?thesis by (simp only: u ClickedFailed obs.case)
    qed
  qed
qed

lemma cleanup_clicks: "snd (cleanup_loop src k s clicks) \<le> clicks + k"
proof (induction k arbitrary: s clicks)
  case 0
  show ?case by simp
next
  case (Suc k)
  obtain o' s' where a: "attempt src s = (o', s')" by (cases "attempt src s")
  show ?case using Suc.IH [of s' "clicks + 1"] Suc.IH [of s' clicks] a
    by (cases o') auto
qed

lemma drive_listing_clicks:
  "snd (drive_listing test_mode src s0) \<le> max_clicks_for test_mode + 50"
proof -
  let ?r = "load_more_loop (max_clicks_for test_mode) src s0 0 0 0 0"
  have c: "click_count ?r \<le> max_clicks_for test_mode"
    by (rule load_more_click_bound) simp
  have "snd (cleanup_loop src 50 (page_state ?r) (click_count ?r)) \<le> click_count ?r + 50"
    by (rule cleanup_clicks)
  then show ?thesis using c
    by (simp add: drive_listing_def Let_def split: option.splits bool.splits)
qed

lemma three_absent_complete:
  assumes "clicks < max_clicks" and "attempt src s = (Absent, s1)"
    and "attempt src s1 = (Absent, s2)" and "attempt src s2 = (Absent, s3)"
  shows "load_more_loop max_clicks src s clicks fails 0 n =
           \<lparr> reason = Complete, page_state = s3, click_count = clicks,
             consecutive_failures = fails, no_button_checks = 3, passes = n + 3 \<rparr>"
  using assms by (simp add: load_more_step_absent)

lemma py_dedup_acc_distinct:
  "distinct xs \<Longrightarrow> set xs \<inter> set seen = {} \<Longrightarrow> py_dedup_acc seen xs = xs"
  by (induction xs arbitrary: seen) auto

lemma py_dedup_distinct: "distinct xs \<Longrightarrow> py_dedup xs = xs"
  by (simp add: py_dedup_def py_dedup_acc_distinct)

lemma py_dedup_acc_length: "length (py_dedup_acc seen xs) \<le> length xs"
  by (induction xs arbitrary: seen) (auto intro: le_SucI)

lemma extract_length: "length (extract_player_urls test_mode ls) \<le> length ls"
proof -
  have "length (py_dedup (map normalize_player_url
          (filter (\<lambda>u. u \<noteq> [] \<and> contains ''/player/'' u \<and> contains ''247sports.com'' u) ls)))
        \<le> length (filter (\<lambda>u. u \<noteq> [] \<and> contains ''/player/'' u \<and> contains ''247sports.com'' u) ls)"
    using py_dedup_acc_length [of "[]" "map normalize_player_url
          (filter (\<lambda>u. u \<noteq> [] \<and> contains ''/player/'' u \<and> contains ''247sports.com'' u) ls)"]
    by (simp add: py_dedup_def)
  also have "\<dots> \<le> length ls" by (rule length_filter_le)
  finally show ?thesis by (simp add: extract_player_urls_def Let_def)
qed

lemma startswith_Nil_nonempty: "\<not> startswith [] (p @ c # q)"
  by (cases p) simp_all

lemma startswith_colon_free:
  "s \<noteq> [] \<Longrightarrow> CHR '':'' \<notin> set s \<Longrightarrow> slash_led t \<Longrightarrow> CHR ''/'' \<notin> set p \<Longrightarrow>
     \<not> startswith (s @ t) (p @ CHR '':'' # q)"
proof (induction p arbitrary: s)
  case Nil
  then show ?case by (cases s) auto
next
  case (Cons x p)
  obtain c s' where s: "s = c # s'" using Cons.prems(1) by (cases s) auto
  show ?case
  proof (cases "s' = []")
    case True
    show ?thesis
    proof (cases t)
      case Nil
      then show ?thesis using s True by (simp add: startswith_Nil_nonempty)
    next
      case (Cons a r)
      then have "a = CHR ''/''" using Cons.prems(3) by (simp add: slash_led_def)
      then show ?thesis using s True Cons Cons.prems(4) by (cases p) auto
    qed
  next
    case False
    then show ?thesis using Cons.IH [of s'] Cons.prems s by simp
  qed
qed

lemma py_replace_colon_free:
  assumes "CHR '':'' \<notin> set s" and "slash_led t" and "CHR ''/'' \<notin> set p"
  shows "py_replace (p @ CHR '':'' # q) new (s @ t) = s @ py_replace (p @ CHR '':'' # q) new t"
  using assms(1)
proof (induction s)
  case Nil
  show ?case by simp
next
  case (Cons c s)
  have "\<not> startswith ((c # s) @ t) (p @ CHR '':'' # q)"
    using Cons.prems assms(2,3) by (intro startswith_colon_free) simp_all
  then show ?case using Cons by simp
qed

lemma py_replace_slash_led:
  "slash_led t \<Longrightarrow> old \<noteq> [] \<Longrightarrow> hd old \<noteq> CHR ''/'' \<Longrightarrow> slash_led (py_replace old new t)"
  by (cases t; cases old) (auto simp: slash_led_def)

lemma takeWhile_slash:
  "CHR ''/'' \<notin> set s \<Longrightarrow> slash_led t \<Longrightarrow> takeWhile (\<lambda>x. x \<noteq> CHR ''/'') (s @ t) = s"
  by (induction s) (auto simp: slash_led_def split: list.splits)

lemma split_first_seg:
  "c \<notin> set s \<Longrightarrow> split_first c (s @ t) = s @ split_first c t"
  by (induction s) (auto simp: split_first_def)

lemma split_tail_slash_led:
  "t = [] \<or> hd t \<in> {CHR ''/'', CHR ''?'', CHR ''#''} \<Longrightarrow>
     slash_led (split_first (CHR ''#'') (split_first (CHR ''?'') t))"
  by (cases t) (auto simp: split_first_def slash_led_def)

lemma replace_www_seg:
  "CHR '':'' \<notin> set s \<Longrightarrow> slash_led t \<Longrightarrow>
     py_replace ''://www.'' new (s @ t) = s @ py_replace ''://www.'' new t"
  using py_replace_colon_free [where p = "[]" and q = "''//www.''" and s = s and t = t and new = new]
  by simp

lemma replace_http_seg:
  "CHR '':'' \<notin> set s \<Longrightarrow> slash_led t \<Longrightarrow>
     py_replace ''http://'' new (s @ t) = s @ py_replace ''http://'' new t"
  using py_replace_colon_free [where p = "''http''" and q = "''//''" and s = s and t = t and new = new]
  by simp

lemma stage_www:
  assumes "CHR '':'' \<notin> set seg" and "slash_led t"
    and "scheme = ''http://'' \<or> scheme = ''https://''" and "www = [] \<or> www = ''www.''"
  shows "py_replace ''://www.'' ''://'' (scheme @ www @ ''247sports.com/player/'' @ seg @ t)
           = scheme @ ''247sports.com/player/'' @ seg @ py_replace ''://www.'' ''://'' t"
  using assms(3,4) replace_www_seg [OF assms(1,2), of "''://''"] by auto

lemma stage_http:
  assumes "CHR '':'' \<notin> set seg" and "slash_led t"
    and "scheme = ''http://'' \<or> scheme = ''https://''"
  shows "py_replace ''http://'' ''https://'' (scheme @ ''247sports.com/player/'' @ seg @ t)
           = ''https://247sports.com/player/'' @ seg @ py_replace ''http://'' ''https://'' t"
  using assms(3) replace_http_seg [OF assms(1,2), of "''https://''"] by auto

lemma normalize_variant:
  assumes seg: "seg \<noteq> []"
    and chars: "\<forall>c\<in>set seg. c \<notin> {CHR ''/'', CHR ''?'', CHR ''#'', CHR '':''}"
    and sch: "scheme = ''http://'' \<or> scheme = ''https://''"
    and www: "www = [] \<or> www = ''www.''"
    and tl: "tail = [] \<or> hd tail \<in> {CHR ''/'', CHR ''?'', CHR ''#''}"
  shows "normalize_player_url (scheme @ www @ ''247sports.com/player/'' @ seg @ tail)
           = player_prefix @ seg @ ''/''"
proof -
  let ?H = "''247sports.com/player/''"
  let ?t1 = "split_first (CHR ''#'') (split_first (CHR ''?'') tail)"
  let ?t2 = "py_replace ''://www.'' ''://'' ?t1"
  let ?t3 = "py_replace ''http://'' ''https://'' ?t2"
  have c1: "CHR '':'' \<notin> set seg" and c2: "CHR ''/'' \<notin> set seg"
    and c3: "CHR ''?'' \<notin> set seg" and c4: "CHR ''#'' \<notin> set seg"
    using chars by auto
  have s1: "slash_led ?t1" using tl by (rule split_tail_slash_led)
  have s2: "slash_led ?t2" using s1 by (rule py_replace_slash_led) simp_all
  have s3: "slash_led ?t3" using s2 by (rule py_replace_slash_led) simp_all
  have q: "CHR ''?'' \<notin> set (scheme @ www @ ?H @ seg)" using sch www c3 by auto
  have h: "CHR ''#'' \<notin> set (scheme @ www @ ?H @ seg)" using sch www c4 by auto
  have u1: "split_first (CHR ''#'') (split_first (CHR ''?'') (scheme @ www @ ?H @ seg @ tail))
              = scheme @ www @ ?H @ seg @ ?t1"
    using split_first_seg [OF q, of tail] split_first_seg [OF h, of "split_first (CHR ''?'') tail"]
    by simp
  have u2: "py_replace ''://www.'' ''://'' (scheme @ www @ ?H @ seg @ ?t1) = scheme @ ?H @ seg @ ?t2"
    by (rule stage_www [OF c1 s1 sch www])
  have u3: "py_replace ''http://'' ''https://'' (scheme @ ?H @ seg @ ?t2)
              = ''https://247sports.com/player/'' @ seg @ ?t3"
    by (rule stage_http [OF c1 s2 sch])
  have m: "match_player (''https://247sports.com/player/'' @ seg @ ?t3) = Some (player_prefix @ seg)"
    using takeWhile_slash [OF c2 s3] seg by (simp add: match_player_def player_prefix_def)
  show ?thesis
    by (simp only: normalize_player_url_def Let_def u1 u2 u3 m option.case) simp
qed

lemma sample_facts:
  "clean_text signing_item = signing_item"
  "clean_text commit_item = commit_item"
  "item_priority signing_item = 1"
  "item_priority commit_item = 100"
  "found_date ref_lib signing_item = ''02/06/2019''"
  "found_date ref_lib commit_item = ''06/01/2018''"
  "is_date_valid_for_class ref_lib ''02/06/2019'' 2019"
  "is_date_valid_for_class ref_lib ''06/01/2018'' 2019"
  "search_team ref_lib signing_item = Some ''Utah''"
  "search_team ref_lib commit_item = Some ''Ohio''"
  "clean_text ''Utah'' = ''Utah''"
  "clean_text ''Ohio'' = ''Ohio''"
  by code_simp+

lemma sample_valid:
  "valid_event ref_lib 2019 signing_item" "valid_event ref_lib 2019 commit_item"
  by (simp_all add: valid_event_def Let_def sample_facts)

lemma sample_priorities:
  "event_priority signing_item = 1" "event_priority commit_item = 100"
  by (simp_all add: event_priority_def sample_facts)

lemma sample_draft_keys: "draft_keys sample_data"
  by code_simp

lemma sample_get_priority: "get_priority sample_data = -1"
  by (simp add: sample_data_def init_data_def get_priority_def)

lemma sample_reachable:
  "reachable_items sample_history 0 =
     [signing_item, commit_item, signing_item, commit_item, commit_item, commit_item,
      commit_item, commit_item, commit_item, commit_item, commit_item, commit_item]"
  by (simp add: reachable_items.simps [of sample_history] sample_history_def max_pages_def)





lemma three_links_ok:
  "\<forall>u\<in>set three_links. u \<noteq> [] \<and> contains ''/player/'' u \<and> contains ''247sports.com'' u"
  by code_simp

lemma three_links_normal:
  "map normalize_player_url three_links =
     [''https://247sports.com/player/a-1/'', ''https://247sports.com/player/b-2/'',
      ''https://247sports.com/player/c-3/'']"
  by code_simp

lemma gap_scenario:
  "fetched (patch_year sample_fetch 2019 [5, 9, 17] [] [(5, player_a), (9, player_b)] None [] [])
     = [player_url player_a, player_url player_b]
   \<and> composite_not_found
       (patch_year sample_fetch 2019 [5, 9, 17] [] [(5, player_a), (9, player_b)] None [] [])
     = [17]"
  by code_simp

section \<open>Verified properties\<close>

text \<open>
  C10. A date string other than \<open>NA\<close> that does not parse as MM/DD/YYYY passes the
  validity check for every recruiting year, and an event carrying it, with a priority
  above the recorded one, sets the signed date to that string.
\<close>

theorem malformed_date_passes_cutoff:
  assumes "date_str \<noteq> ''NA''" and "strptime L date_str fmt_mdY = None"
  shows "is_date_valid_for_class L date_str recruiting_year \<and>
         (found_date L item_text = date_str \<and> 0 < item_priority item_text \<and>
          get_priority d < item_priority item_text \<longrightarrow>
          entries (fst (merge_event L recruiting_year item_text d)) ''Signed Date'' = Some date_str)"
proof -
  have v: "is_date_valid_for_class L date_str recruiting_year"
    using assms by (simp add: is_date_valid_for_class_def)
  have "entries (fst (merge_event L recruiting_year item_text d)) ''Signed Date'' = Some date_str"
    if "found_date L item_text = date_str" "0 < item_priority item_text"
       "get_priority d < item_priority item_text"
    using that v assms(1)
    by (simp add: merge_event_def Let_def setitem_def split: option.splits)
  then show ?thesis using v by blast
qed

theorem malformed_date_passes_cutoff_witness:
  "''Sept 5, 2019'' \<noteq> ''NA'' \<and> strptime ref_lib ''Sept 5, 2019'' fmt_mdY = None \<and>
   normalize_date ref_lib ''Sept 5, 2019'' = ''Sept 5, 2019'' \<and>
   found_date ref_lib ''Committed to Alabama Sept 5, 2019'' = ''Sept 5, 2019'' \<and>
   0 < item_priority ''Committed to Alabama Sept 5, 2019'' \<and>
   get_priority blank_data < item_priority ''Committed to Alabama Sept 5, 2019'' \<and>
   is_date_valid_for_class ref_lib ''Sept 5, 2019'' 2019 \<and>
   entries (fst (merge_event ref_lib 2019 ''Committed to Alabama Sept 5, 2019'' blank_data))
     ''Signed Date'' = Some ''Sept 5, 2019''"
proof -
  have a: "''Sept 5, 2019'' \<noteq> ''NA''" by simp
  have b: "strptime ref_lib ''Sept 5, 2019'' fmt_mdY = None" by code_simp
  have n: "normalize_date ref_lib ''Sept 5, 2019'' = ''Sept 5, 2019''" by code_simp
  have c: "found_date ref_lib ''Committed to Alabama Sept 5, 2019'' = ''Sept 5, 2019''"
    by code_simp
  have p: "item_priority ''Committed to Alabama Sept 5, 2019'' = 100" by code_simp
  have g: "get_priority blank_data = -1" by (simp add: get_priority_def blank_data_def)
  show ?thesis
    using malformed_date_passes_cutoff [OF a b, of 2019 "''Committed to Alabama Sept 5, 2019''" blank_data]
      a b n c p g by simp
qed

text \<open>
  C5 (as amended). When the normalised date of an event parses as MM/DD/YYYY and the
  recruiting year is a valid datetime year, the event changes the record only if the
  date is strictly before September 1 of the recruiting year; an event dated on or
  after the cutoff leaves the record, and so Signed Date and Signed Team, unchanged.
\<close>

theorem parsed_date_accepted_only_before_cutoff:
  assumes "strptime L (found_date L item_text) fmt_mdY = Some dt"
    and "1 \<le> recruiting_year" and "recruiting_year \<le> 9999"
  shows "(fst (merge_event L recruiting_year item_text d) \<noteq> d \<longrightarrow>
            date_less dt (recruiting_year, 9, 1)) \<and>
         (\<not> date_less dt (recruiting_year, 9, 1) \<longrightarrow>
            merge_event L recruiting_year item_text d = (d, False))"
proof -
  have v: "is_date_valid_for_class L (found_date L item_text) recruiting_year
             \<Longrightarrow> date_less dt (recruiting_year, 9, 1)"
    using assms
    by (simp add: is_date_valid_for_class_def cutoff_date_def split: if_splits)
  have "merge_event L recruiting_year item_text d = (d, False)"
    if "\<not> date_less dt (recruiting_year, 9, 1)"
    using that v by (auto simp: merge_event_def Let_def)
  then show ?thesis by (metis fst_conv)
qed

theorem parsed_date_accepted_only_before_cutoff_witness:
  "strptime ref_lib (found_date ref_lib late_signing) fmt_mdY = Some (2019, 9, 5) \<and>
   (1::int) \<le> 2019 \<and> (2019::int) \<le> 9999 \<and>
   \<not> date_less (2019, 9, 5) (2019, 9, 1) \<and>
   merge_event ref_lib 2019 late_signing blank_data = (blank_data, False)"
proof -
  have a: "strptime ref_lib (found_date ref_lib late_signing) fmt_mdY = Some (2019, 9, 5)"
    by code_simp
  have b: "\<not> date_less (2019, 9, 5) (2019, 9, 1)" by simp
  show ?thesis
    using parsed_date_accepted_only_before_cutoff [OF a, of 2019 blank_data] a b by simp
qed

text \<open>
  C5 (as stated) fails: the event \<open>Committed to Alabama Sept 5, 2019\<close> of the 2019
  class carries a detected date that is not before the cutoff, and yet it sets Signed
  Date and Signed Team, because its date string does not parse.
\<close>

theorem unparsed_date_event_accepted:
  "entries (fst (merge_event ref_lib 2019 sept_commit blank_data)) ''Signed Date''
     = Some ''Sept 5, 2019'' \<and>
   entries (fst (merge_event ref_lib 2019 sept_commit blank_data)) ''Signed Team''
     = Some ''Alabama Sept 5'' \<and>
   strptime ref_lib ''Sept 5, 2019'' fmt_mdY = None"
  by code_simp

text \<open>
  C1. Starting from a dict that holds the draft keys, the priority recorded after
  \<open>parse_timeline\<close> is the greatest of the starting priority and the priorities of
  the valid candidates among the timeline items (the abbreviated items and, under the
  deep dive, the items of the pages reached); and an event changes the record only when
  its priority strictly exceeds the recorded one.
\<close>

theorem final_priority_is_max_valid:
  assumes "draft_keys d"
  shows "get_priority (parse_timeline L page d year do_deep_dive)
           = best_priority L year (get_priority d) (timeline_events page do_deep_dive)
         \<and> (fst (merge_event L year item_text d0) \<noteq> d0
              \<longrightarrow> get_priority d0 < item_priority item_text)"
  using parse_timeline_priority [OF assms] merge_event_strict by blast

theorem final_priority_is_max_valid_witness:
  "draft_keys sample_data
   \<and> get_priority sample_data = -1
   \<and> get_priority (parse_timeline ref_lib sample_page sample_data 2019 True) = 100
   \<and> best_priority ref_lib 2019 (-1) (timeline_events sample_page True) = 100
   \<and> fst (merge_event ref_lib 2019 commit_item sample_data) \<noteq> sample_data
   \<and> get_priority sample_data < item_priority commit_item"
proof -
  have ev: "timeline_events sample_page True = signing_item # reachable_items sample_history 0"
    by (simp add: timeline_events_def sample_page_def)
  have b: "best_priority ref_lib 2019 (-1) (timeline_events sample_page True) = 100"
    by (simp only: ev sample_reachable best_priority_Cons best_priority_Nil sample_valid
          sample_priorities if_True) simp
  have "date_priority (fst (merge_event ref_lib 2019 commit_item sample_data)) = Some 100"
    using sample_get_priority by (simp add: merge_event_def Let_def sample_facts setitem_def)
  moreover have "date_priority sample_data = Some (-1)"
    by (simp add: sample_data_def init_data_def)
  ultimately have ne: "fst (merge_event ref_lib 2019 commit_item sample_data) \<noteq> sample_data"
    by auto
  show ?thesis
    using final_priority_is_max_valid [OF sample_draft_keys, of ref_lib sample_page 2019 True
        commit_item sample_data] b sample_draft_keys sample_get_priority ne
    by simp
qed











text \<open>
  C8 (as amended). For every page behaviour the driver makes at most
  \<open>max_clicks + 50\<close> clicks and its main loop at most \<open>14 * max_clicks + 14\<close> passes,
  and three passes in a row without a visible button end the main loop as complete.
  On a simulated listing of \<open>item_total\<close> links that shows \<open>page_size\<close> more per click
  and hides the button once exhausted, and that is exhausted within
  \<open>max_clicks + 50\<close> clicks, the driver ends with all items shown and returns the
  normalised links: \<open>item_total\<close> distinct entries when the links pass the filter, stay
  distinct under normalisation and the test-mode cap of 300 does not apply.
\<close>

theorem convergence_bounded:
  assumes "s0 \<le> item_total" and "length all_links = item_total"
    and "\<forall>u\<in>set all_links. u \<noteq> [] \<and> contains ''/player/'' u \<and> contains ''247sports.com'' u"
    and "distinct (map normalize_player_url all_links)"
    and "item_total \<le> s0 + (max_clicks_for test_mode + 50) * page_size"
    and "\<not> (test_mode \<and> item_total > 300)"
  shows "snd (drive_listing test_mode src s) \<le> max_clicks_for test_mode + 50
         \<and> passes (load_more_loop (max_clicks_for test_mode) src s 0 0 0 0)
             \<le> max_clicks_for test_mode * 14 + 14
         \<and> (attempt src s = (Absent, s1) \<and> attempt src s1 = (Absent, s2)
              \<and> attempt src s2 = (Absent, s3) \<longrightarrow>
              load_more_loop (max_clicks_for test_mode) src s 0 0 0 0 =
                \<lparr> reason = Complete, page_state = s3, click_count = 0,
                  consecutive_failures = 0, no_button_checks = 3, passes = 3 \<rparr>)
         \<and> fst (drive_listing test_mode (sim_source item_total page_size) s0) = item_total
         \<and> click_load_more_until_complete test_mode (sim_source item_total page_size)
               (\<lambda>shown. take shown all_links) s0 = map normalize_player_url all_links
         \<and> length (click_load_more_until_complete test_mode (sim_source item_total page_size)
               (\<lambda>shown. take shown all_links) s0) = item_total
         \<and> distinct (click_load_more_until_complete test_mode (sim_source item_total page_size)
               (\<lambda>shown. take shown all_links) s0)"
proof -
  have b1: "snd (drive_listing test_mode src s) \<le> max_clicks_for test_mode + 50"
    by (rule drive_listing_clicks)
  have b2: "passes (load_more_loop (max_clicks_for test_mode) src s 0 0 0 0)
              \<le> max_clicks_for test_mode * 14 + 14"
    using load_more_pass_bound [of "max_clicks_for test_mode" src s 0 0 0 0] by simp
  have pos: "0 < max_clicks_for test_mode" by (simp add: max_clicks_for_def)
  have b3: "load_more_loop (max_clicks_for test_mode) src s 0 0 0 0 =
                \<lparr> reason = Complete, page_state = s3, click_count = 0,
                  consecutive_failures = 0, no_button_checks = 3, passes = 3 \<rparr>"
    if "attempt src s = (Absent, s1)" "attempt src s1 = (Absent, s2)" "attempt src s2 = (Absent, s3)"
    using three_absent_complete [OF pos that, of 0 0] by simp
  have st: "fst (drive_listing test_mode (sim_source item_total page_size) s0) = item_total"
    using sim_drive_state [OF assms(1), of test_mode page_size] assms(5) by (simp add: min_def)
  have f: "filter (\<lambda>u. u \<noteq> [] \<and> contains ''/player/'' u \<and> contains ''247sports.com'' u) all_links
             = all_links"
    using assms(3) by (simp add: filter_id_conv)
  have r: "click_load_more_until_complete test_mode (sim_source item_total page_size)
               (\<lambda>shown. take shown all_links) s0 = map normalize_player_url all_links"
    using assms(2,4,6)
    by (simp add: click_load_more_until_complete_def st extract_player_urls_def Let_def f
          py_dedup_distinct)
  show ?thesis using b1 b2 b3 st r assms(2,4) by simp
qed

theorem convergence_bounded_witness:
  "(1::nat) \<le> 3 \<and> length three_links = 3
   \<and> list_all (\<lambda>u. u \<noteq> [] \<and> contains ''/player/'' u \<and> contains ''247sports.com'' u) three_links
   \<and> distinct (map normalize_player_url three_links)
   \<and> (3::nat) \<le> 1 + (max_clicks_for False + 50) * 2
   \<and> \<not> (False \<and> (3::nat) > 300)
   \<and> attempt (sim_source 3 2) 3 = (Absent, 3)
   \<and> load_more_loop (max_clicks_for False) (sim_source 3 2) 3 0 0 0 0 =
        \<lparr> reason = Complete, page_state = 3, click_count = 0,
          consecutive_failures = 0, no_button_checks = 3, passes = 3 \<rparr>
   \<and> fst (drive_listing False (sim_source 3 2) 1) = 3
   \<and> click_load_more_until_complete False (sim_source 3 2) (\<lambda>shown. take shown three_links) 1
        = [''https://247sports.com/player/a-1/'', ''https://247sports.com/player/b-2/'',
           ''https://247sports.com/player/c-3/'']"
proof -
  have l: "length three_links = 3" by (simp add: three_links_def)
  have d: "distinct (map normalize_player_url three_links)"
    by (simp add: three_links_normal)
  have c: "(3::nat) \<le> 1 + (max_clicks_for False + 50) * 2" by (simp add: max_clicks_for_def)
  have a: "attempt (sim_source 3 2) 3 = (Absent, 3)" by (simp add: sim_source_def)
  show ?thesis
    using convergence_bounded [where ?s0.0 = 1 and item_total = 3 and all_links = three_links
        and test_mode = False and page_size = 2 and src = "sim_source 3 2" and s = 3
        and ?s1.0 = 3 and ?s2.0 = 3 and ?s3.0 = 3, OF _ l three_links_ok d c]
      l three_links_ok d c a three_links_normal
    by (simp add: list_all_iff)
qed

text \<open>
  C8 (as stated) fails: a simulated listing of 30000 items with 50 shown at first and 50
  more per click is cut off by the click ceilings (500 and 50), so fewer than 30000
  entries are returned.
\<close>

theorem convergence_misses_large_listing:
  "length (click_load_more_until_complete False (sim_source 30000 50)
             (\<lambda>shown. take shown (sim_links 30000)) 50) < 30000"
proof -
  have "fst (drive_listing False (sim_source 30000 50) 50) = 27550"
    using sim_drive_state [of 50 30000 False 50] by (simp add: max_clicks_for_def)
  then have "length (click_load_more_until_complete False (sim_source 30000 50)
             (\<lambda>shown. take shown (sim_links 30000)) 50) \<le> length (take 27550 (sim_links 30000))"
    by (simp only: click_load_more_until_complete_def extract_length)
  then show ?thesis by simp
qed

text \<open>
  C3 (as amended). Every variant of a player URL (scheme http or https, host with or
  without \<open>www.\<close>, a slug free of slash, question mark, hash and colon, followed by
  nothing, a further path, a query string or a fragment) normalizes to the canonical
  \<open>https://247sports.com/player/<slug>/\<close>, and on these inputs the normalizer is
  idempotent.
\<close>

theorem normalize_player_variants:
  assumes "seg \<noteq> []"
    and "\<forall>c\<in>set seg. c \<notin> {CHR ''/'', CHR ''?'', CHR ''#'', CHR '':''}"
    and "scheme = ''http://'' \<or> scheme = ''https://''"
    and "www = [] \<or> www = ''www.''"
    and "tail = [] \<or> hd tail \<in> {CHR ''/'', CHR ''?'', CHR ''#''}"
  shows "normalize_player_url (scheme @ www @ ''247sports.com/player/'' @ seg @ tail)
           = player_prefix @ seg @ ''/''
         \<and> normalize_player_url
               (normalize_player_url (scheme @ www @ ''247sports.com/player/'' @ seg @ tail))
             = normalize_player_url (scheme @ www @ ''247sports.com/player/'' @ seg @ tail)"
proof -
  have a: "normalize_player_url (scheme @ www @ ''247sports.com/player/'' @ seg @ tail)
             = player_prefix @ seg @ ''/''"
    using assms by (rule normalize_variant)
  have "normalize_player_url (''https://'' @ [] @ ''247sports.com/player/'' @ seg @ ''/'')
          = player_prefix @ seg @ ''/''"
    using assms(1,2) by (rule normalize_variant) simp_all
  then have b: "normalize_player_url (player_prefix @ seg @ ''/'') = player_prefix @ seg @ ''/''"
    by (simp add: player_prefix_def)
  show ?thesis by (simp only: a b)
qed

theorem normalize_player_variants_witness:
  "''joe-smith-46087'' \<noteq> []
   \<and> list_all (\<lambda>c. c \<notin> {CHR ''/'', CHR ''?'', CHR ''#'', CHR '':''}) ''joe-smith-46087''
   \<and> hd ''/college-12/?x=1#f'' \<in> {CHR ''/'', CHR ''?'', CHR ''#''}
   \<and> normalize_player_url ''http://www.247sports.com/player/joe-smith-46087/college-12/?x=1#f''
       = ''https://247sports.com/player/joe-smith-46087/''
   \<and> normalize_player_url (normalize_player_url
         ''http://www.247sports.com/player/joe-smith-46087/college-12/?x=1#f'')
       = normalize_player_url ''http://www.247sports.com/player/joe-smith-46087/college-12/?x=1#f''"
proof -
  have c: "\<forall>c\<in>set ''joe-smith-46087''. c \<notin> {CHR ''/'', CHR ''?'', CHR ''#'', CHR '':''}"
    by simp
  have t: "normalize_player_url (''http://'' @ ''www.'' @ ''247sports.com/player/''
                @ ''joe-smith-46087'' @ ''/college-12/?x=1#f'')
             = player_prefix @ ''joe-smith-46087'' @ ''/''
           \<and> normalize_player_url (normalize_player_url (''http://'' @ ''www.''
                @ ''247sports.com/player/'' @ ''joe-smith-46087'' @ ''/college-12/?x=1#f''))
             = normalize_player_url (''http://'' @ ''www.'' @ ''247sports.com/player/''
                @ ''joe-smith-46087'' @ ''/college-12/?x=1#f'')"
    by (rule normalize_player_variants [OF _ c]) simp_all
  have a1: "''http://'' @ ''www.'' @ ''247sports.com/player/'' @ ''joe-smith-46087''
              @ ''/college-12/?x=1#f''
            = ''http://www.247sports.com/player/joe-smith-46087/college-12/?x=1#f''"
    by simp
  have e0: "normalize_player_url
              ''http://www.247sports.com/player/joe-smith-46087/college-12/?x=1#f''
            = player_prefix @ ''joe-smith-46087'' @ ''/''"
    using conjunct1 [OF t] unfolding a1 .
  have e1: "normalize_player_url
              ''http://www.247sports.com/player/joe-smith-46087/college-12/?x=1#f''
            = ''https://247sports.com/player/joe-smith-46087/''"
    unfolding e0 by (simp add: player_prefix_def)
  have e2: "normalize_player_url (normalize_player_url
              ''http://www.247sports.com/player/joe-smith-46087/college-12/?x=1#f'')
            = normalize_player_url
              ''http://www.247sports.com/player/joe-smith-46087/college-12/?x=1#f''"
    using conjunct2 [OF t] unfolding a1 .
  have l: "list_all (\<lambda>c. c \<notin> {CHR ''/'', CHR ''?'', CHR ''#'', CHR '':''}) ''joe-smith-46087''"
    by simp
  have h: "hd ''/college-12/?x=1#f'' \<in> {CHR ''/'', CHR ''?'', CHR ''#''}" by simp
  show ?thesis using e1 e2 l h by blast
qed

text \<open>
  C3 (as stated) fails: \<open>str.replace\<close> makes one pass, so a doubled \<open>www.\<close> loses one
  copy per application and the second application changes the result of the first.
\<close>

theorem normalize_not_idempotent:
  "normalize_player_url ''https://www.www.247sports.com/player/a-1/''
     = ''https://www.247sports.com/player/a-1/''
   \<and> normalize_player_url (normalize_player_url ''https://www.www.247sports.com/player/a-1/'')
     = ''https://247sports.com/player/a-1/''
   \<and> normalize_player_url (normalize_player_url ''https://www.www.247sports.com/player/a-1/'')
     \<noteq> normalize_player_url ''https://www.www.247sports.com/player/a-1/''"
  by code_simp

text \<open>
  C2. The claim asks that an entity be fetched once however many requested ranks it
  covers. The composite pass does so through its dict keyed by URL; the pass over the
  247-only list checks a URL only against the diagnostics, which it does not extend, so a
  player listed at two requested 247 ranks is fetched twice: here the fetches of a year
  with the 247 gaps 1 and 30, both held by player B.
\<close>

theorem second_pass_fetches_entity_twice:
  "fetched (patch_year sample_fetch 2019 [5] [1, 30] [(5, player_a)]
              (Some [(1, player_b), (30, player_b)]) [] [])
     = [player_url player_a, player_url player_b, player_url player_b]"
  by code_simp

end
